theory Spec2Isabelle
  imports Complex_Main
begin

section \<open>The quota ledger and metered gateway of backend/routes/llmRoutes.js\<close>

text \<open>
  The route handlers of \<^verbatim>\<open>llmRoutes.js\<close> are embedded as functions on an explicit store.
  Conventions of the embedding:
  \<^item> a JavaScript string is a \<open>string\<close>, one \<open>char\<close> per code unit, so only code units
    below 256 are represented; \<open>length\<close> is the string's \<^verbatim>\<open>.length\<close>;
  \<^item> currency amounts and prices are rationals (\<open>rat\<close>), token counts are whole numbers
    (\<open>int\<close>); the arithmetic of the purchase and of the debit, on amounts and on counts,
    rounds each exact result by a function \<open>rnd\<close> that the handlers take as a parameter:
    \<open>round_double\<close> for JavaScript's numbers, the identity for exact arithmetic;
  \<^item> the users collection is a list of documents; \<^verbatim>\<open>User.findById\<close> returns a fresh copy of
    the first document with the id, \<^verbatim>\<open>doc.save()\<close> writes the copy back over the stored one
    (when buyer and seller of a purchase are the same account, the two documents are copies
    of one stored record, saved one after the other; what the store holds of the buyer
    afterwards is stated below for two accounts only);
  \<^item> every \<^verbatim>\<open>return res.status(4xx)\<close> and every \<^verbatim>\<open>throw\<close> is a value of \<open>error\<close>; a
    handler returns its reply or error together with the store it leaves.
\<close>

subsection \<open>Provider inference\<close>

datatype provider = OpenAI | Anthropic | Gemini

text \<open>\<^verbatim>\<open>String.prototype.toLowerCase\<close> on code units below 256: A-Z and the Latin-1 capitals
  (0xC0-0xDE except the multiplication sign 0xD7) move up by 32, everything else stays.\<close>

definition toLowerCase_char :: "char \<Rightarrow> char" where
  "toLowerCase_char c =
     (let n = (of_char c :: nat)
      in if (65 \<le> n \<and> n \<le> 90) \<or> (192 \<le> n \<and> n \<le> 222 \<and> n \<noteq> 215)
         then char_of (n + 32) else c)"

definition toLowerCase :: "string \<Rightarrow> string" where
  "toLowerCase s = map toLowerCase_char s"

fun startsWith :: "string \<Rightarrow> string \<Rightarrow> bool" where
  "startsWith s [] = True"
| "startsWith [] (p # ps) = False"
| "startsWith (c # cs) (p # ps) = (c = p \<and> startsWith cs ps)"

text \<open>\<^verbatim>\<open>String.prototype.includes\<close>: the pattern starts at some position of the string.\<close>

fun str_includes :: "string \<Rightarrow> string \<Rightarrow> bool" where
  "str_includes [] p = (p = [])"
| "str_includes (c # cs) p = (startsWith (c # cs) p \<or> str_includes cs p)"

datatype missing = Buyer | Seller | Token | UserDoc | TemporaryKey | OriginalKey | OwnedKey

text \<open>The failures of the handlers, one constructor per \<^verbatim>\<open>return res.status(...)\<close> or
  \<^verbatim>\<open>throw\<close>:
  \<^item> \<open>MissingInput\<close>: 400, required parameters missing or amount not a positive number;
  \<^item> \<open>NotFound m\<close>: 404, the buyer, seller, token, user, temporary key, original key or
    owned key is absent;
  \<^item> \<open>InsufficientFunds\<close>: 400 "Insufficient balance. Please add funds to continue.";
  \<^item> \<open>InvalidAmount\<close>: 400 "Amount too small to purchase any tokens";
  \<^item> \<open>InsufficientSupply\<close>: 400 "Seller does not have enough tokens available";
  \<^item> \<open>Exhausted\<close>: 400 "Insufficient tokens. Please purchase more.";
  \<^item> \<open>InsufficientTokens\<close>: 400 "Insufficient tokens for this request." and
    "Insufficient available tokens for this request.";
  \<^item> \<open>InvalidKeyType\<close>: 400 "Invalid key type";
  \<^item> \<open>UnknownProvider n\<close>: the \<^verbatim>\<open>Error\<close> thrown by \<^verbatim>\<open>getProviderFromModel\<close> (a 500 at the route);
  \<^item> \<open>ProviderError\<close>: the upstream SDK call rejected (a 500 at the route).\<close>

datatype error =
    MissingInput
  | NotFound missing
  | InsufficientFunds
  | InvalidAmount
  | InsufficientSupply
  | Exhausted
  | InsufficientTokens
  | InvalidKeyType
  | UnknownProvider string
  | ProviderError

definition getProviderFromModel :: "string \<Rightarrow> error + provider" where
  "getProviderFromModel modelName =
     (let lower = toLowerCase modelName
      in if str_includes lower ''gpt'' \<or> startsWith lower ''gpt'' then Inr OpenAI
         else if str_includes lower ''claude'' then Inr Anthropic
         else if str_includes lower ''gemini'' then Inr Gemini
         else Inl (UnknownProvider modelName))"

text \<open>The substring policy in the spec's words, to compare with the code: a pattern of
  lower-case letters occurs in a name, ignoring case, when some window of the name agrees
  with it letter by letter, each letter of the window being the pattern's letter or its
  capital.\<close>

definition same_letter :: "char \<Rightarrow> char \<Rightarrow> bool" where
  "same_letter c p = (c = p \<or> (of_char c :: nat) + 32 = of_char p)"

definition contains_ignoring_case :: "string \<Rightarrow> string \<Rightarrow> bool" where
  "contains_ignoring_case s p =
     (\<exists>pre mid post. s = pre @ mid @ post \<and> list_all2 same_letter mid p)"

subsection \<open>Numbers\<close>

text \<open>A JavaScript number is an IEEE 754 double, and \<^verbatim>\<open>+\<close>, \<^verbatim>\<open>-\<close>, \<^verbatim>\<open>*\<close> and \<^verbatim>\<open>/\<close> return the exact
  result rounded to the nearest double, ties to the even significand. \<open>round_double\<close> is
  that rounding on the rationals, for values in the normal range of doubles (no overflow to
  \<^verbatim>\<open>Infinity\<close>, no subnormal numbers, no \<^verbatim>\<open>NaN\<close>): the value is scaled to a significand of 53
  bits, rounded to an integer and scaled back.\<close>

function bit_length :: "int \<Rightarrow> int" where
  "bit_length n = (if n \<le> 0 then 0 else 1 + bit_length (n div 2))"
  by pat_completeness auto
termination
  by (relation "measure nat") auto

function pow2 :: "int \<Rightarrow> rat" where
  "pow2 k = (if k = 0 then 1 else if 0 < k then 2 * pow2 (k - 1) else pow2 (k + 1) / 2)"
  by pat_completeness auto
termination
  by (relation "measure (\<lambda>k. nat \<bar>k\<bar>)") auto

text \<open>The exponent \<open>e\<close> with \<open>pow2 e \<le> y < pow2 (e + 1)\<close>, for \<open>y > 0\<close>: the bit lengths of
  numerator and denominator give it up to one.\<close>

definition exponent_of :: "rat \<Rightarrow> int" where
  "exponent_of y =
     (let (n, m) = quotient_of y;
          e = bit_length n - bit_length m
      in if pow2 e \<le> y then e else e - 1)"

definition round_half_even :: "rat \<Rightarrow> int" where
  "round_half_even q =
     (let f = \<lfloor>q\<rfloor>; r = q - of_int f
      in if r < 1 / 2 then f
         else if 1 / 2 < r then f + 1
         else if even f then f else f + 1)"

definition round_double :: "rat \<Rightarrow> rat" where
  "round_double x =
     (if x = 0 then 0
      else let y = \<bar>x\<bar>; e = exponent_of y;
               m = round_half_even (y / pow2 (e - 52))
           in sgn x * of_int m * pow2 (e - 52))"

text \<open>A token count is a whole number held in a double. The sum or difference of two counts
  is rounded like any other result, and the double nearest to a whole number is a whole
  number, the number itself below \<open>2 ^ 53\<close> (\<open>round_double_of_int\<close> and
  \<open>round_double_exact\<close> below): \<open>rounded rnd n\<close> is the count that \<open>rnd\<close> leaves of the exact
  result \<open>n\<close>.\<close>

definition rounded :: "(rat \<Rightarrow> rat) \<Rightarrow> int \<Rightarrow> int" where
  "rounded rnd n = \<lfloor>rnd (of_int n)\<rfloor>"

subsection \<open>Data model\<close>

type_synonym ident = string

text \<open>Modelled from the spec: the Mongoose schema \<^verbatim>\<open>models/User\<close> is not among the sources.
  The fields are the ones the handlers read and write: an owned key (\<^verbatim>\<open>api_keys\<close> entry)
  has \<^verbatim>\<open>_id\<close>, \<^verbatim>\<open>name\<close>, \<^verbatim>\<open>key\<close> and \<^verbatim>\<open>available\<close>; a quota bundle (\<^verbatim>\<open>temporaryTokens\<close>
  entry) has \<^verbatim>\<open>_id\<close>, \<^verbatim>\<open>name\<close>, \<^verbatim>\<open>apiKey\<close>, \<^verbatim>\<open>tokensRemaining\<close>, \<^verbatim>\<open>expiresAt\<close>,
  \<^verbatim>\<open>pricePerToken\<close>, \<^verbatim>\<open>sellerId\<close>, \<^verbatim>\<open>originalApiKeyId\<close> and the optional \<^verbatim>\<open>apiKeyName\<close>
  that only the chat handler reads (\<open>None\<close> is \<^verbatim>\<open>undefined\<close>).\<close>

record OwnedKeyDoc =
  key_id :: ident
  key_name :: string
  key :: string
  available :: int

record TempToken =
  tok_id :: ident
  name :: string
  apiKey :: string
  apiKeyName :: "string option"
  tokensRemaining :: int
  expiresAt :: int
  pricePerToken :: rat
  sellerId :: ident
  originalApiKeyId :: ident

record User =
  user_id :: ident
  amount :: rat
  api_keys :: "OwnedKeyDoc list"
  temporaryTokens :: "TempToken list"

type_synonym db = "User list"

definition findById :: "db \<Rightarrow> ident \<Rightarrow> User option" where
  "findById d i = find (\<lambda>u. user_id u = i) d"

definition save :: "User \<Rightarrow> db \<Rightarrow> db" where
  "save u d = map (\<lambda>v. if user_id v = user_id u then u else v) d"

text \<open>\<^verbatim>\<open>Array.prototype.findIndex\<close>; \<open>None\<close> is the result -1.\<close>

fun findIndex :: "('a \<Rightarrow> bool) \<Rightarrow> 'a list \<Rightarrow> nat option" where
  "findIndex P [] = None"
| "findIndex P (x # xs) = (if P x then Some 0 else map_option Suc (findIndex P xs))"

subsection \<open>Purchase: POST /buy-tokens\<close>

record purchase_reply =
  tokensReceived :: int
  amountSpent :: rat
  remainingBalance :: rat
  purchasedToken :: TempToken

text \<open>Lines 83-159: the handler between loading the two documents and saving them. The
  result holds the reply, the buyer document and the seller document as they are saved; the
  reply's \<open>purchasedToken\<close> is the buyer's bundle, of which the response shows \<^verbatim>\<open>_id\<close>,
  \<^verbatim>\<open>name\<close>, \<^verbatim>\<open>tokensRemaining\<close> and \<^verbatim>\<open>expiresAt\<close>. \<open>rnd\<close> rounds the result of each arithmetic
  operation, on amounts and on token counts. \<open>freshId\<close> is the \<^verbatim>\<open>_id\<close> Mongoose generates for a pushed
  subdocument. A price of 0 makes \<^verbatim>\<open>amount / pricePerToken\<close> infinite (the amount is positive
  there), which passes the \<^verbatim>\<open>tokensToReceive <= 0\<close> test and fails the supply test.\<close>

definition purchase ::
  "(rat \<Rightarrow> rat) \<Rightarrow> db \<Rightarrow> ident \<Rightarrow> ident \<Rightarrow> ident \<Rightarrow> rat \<Rightarrow> ident \<Rightarrow>
     error + (purchase_reply \<times> User \<times> User)" where
  "purchase rnd d userId sellerIdReq tokenId amountReq freshId =
     (if sellerIdReq = [] \<or> tokenId = [] \<or> amountReq \<le> 0 then Inl MissingInput
      else (case findById d userId of
        None \<Rightarrow> Inl (NotFound Buyer)
      | Some buyer \<Rightarrow>
      (if amount buyer < amountReq then Inl InsufficientFunds
      else (case findById d sellerIdReq of
        None \<Rightarrow> Inl (NotFound Seller)
      | Some seller \<Rightarrow>
      (case findIndex (\<lambda>t. tok_id t = tokenId) (temporaryTokens seller) of
        None \<Rightarrow> Inl (NotFound Token)
      | Some i \<Rightarrow>
      (let token = temporaryTokens seller ! i;
           tokensToReceive = \<lfloor>rnd (amountReq / pricePerToken token)\<rfloor>
      in if pricePerToken token = 0 then Inl InsufficientSupply
      else if tokensToReceive \<le> 0 then Inl InvalidAmount
      else if tokensRemaining token < tokensToReceive then Inl InsufficientSupply
      else
      (let actualAmount = rnd (of_int tokensToReceive * pricePerToken token);
           buyer1 = buyer\<lparr>amount := rnd (amount buyer - actualAmount)\<rparr>;
           seller1 = seller\<lparr>amount := rnd (amount seller + actualAmount)\<rparr>;
           token1 = token\<lparr>tokensRemaining :=
                      rounded rnd (tokensRemaining token - tokensToReceive)\<rparr>;
           seller2 = seller1\<lparr>temporaryTokens := (temporaryTokens seller1)[i := token1]\<rparr>;
           (buyer2, purchased) =
             (case findIndex (\<lambda>t. name t = name token \<and> sellerId t = sellerIdReq)
                     (temporaryTokens buyer1) of
                Some j \<Rightarrow>
                  (let merged = (temporaryTokens buyer1 ! j)
                        \<lparr>tokensRemaining :=
                           rounded rnd
                             (tokensRemaining (temporaryTokens buyer1 ! j) + tokensToReceive)\<rparr>
                   in (buyer1\<lparr>temporaryTokens := (temporaryTokens buyer1)[j := merged]\<rparr>,
                       merged))
              | None \<Rightarrow>
                  (let newToken =
                        \<lparr>tok_id = freshId,
                         name = name token,
                         apiKey = apiKey token,
                         apiKeyName = None,
                         tokensRemaining = tokensToReceive,
                         expiresAt = expiresAt token,
                         pricePerToken = pricePerToken token,
                         sellerId = user_id seller,
                         originalApiKeyId = originalApiKeyId token\<rparr>
                   in (buyer1\<lparr>temporaryTokens := temporaryTokens buyer1 @ [newToken]\<rparr>,
                       newToken)));
           seller3 =
             (if tokensRemaining token1 \<le> 0
              then seller2\<lparr>temporaryTokens :=
                     filter (\<lambda>t. tok_id t \<noteq> tokenId) (temporaryTokens seller2)\<rparr>
              else seller2)
       in Inr (\<lparr>tokensReceived = tokensToReceive,
                amountSpent = actualAmount,
                remainingBalance = amount buyer2,
                purchasedToken = purchased\<rparr>, buyer2, seller3))))))))"

text \<open>The route: a failure returns before anything is saved; a success saves the buyer,
  then the seller (lines 162-163).\<close>

definition buy_tokens ::
  "(rat \<Rightarrow> rat) \<Rightarrow> db \<Rightarrow> ident \<Rightarrow> ident \<Rightarrow> ident \<Rightarrow> rat \<Rightarrow> ident \<Rightarrow>
     (error + purchase_reply) \<times> db" where
  "buy_tokens rnd d userId sellerIdReq tokenId amountReq freshId =
     (case purchase rnd d userId sellerIdReq tokenId amountReq freshId of
        Inl e \<Rightarrow> (Inl e, d)
      | Inr (reply, buyer', seller') \<Rightarrow> (Inr reply, save seller' (save buyer' d)))"

subsection \<open>Provider handlers\<close>

record token_usage =
  promptTokens :: int
  completionTokens :: int
  totalTokens :: int

record completion =
  text_out :: string
  usage :: token_usage

text \<open>The upstream SDKs and \<^verbatim>\<open>utils/crypto\<close> are outside the sources; they are parameters.
  Each call takes the decrypted key, the model id and the message; \<open>None\<close> is a rejected
  promise. The OpenAI client reports the usage itself; the other two return the text only,
  and the handler estimates the usage from the lengths. A JavaScript string has fewer than
  \<open>2 ^ 53\<close> code units, so the quotient by 4 and the sum of the two estimates are exact in
  doubles and are written without \<open>rnd\<close>.\<close>

record upstream =
  decrypt :: "string \<Rightarrow> string"
  openai_create :: "string \<Rightarrow> string \<Rightarrow> string \<Rightarrow> completion option"
  anthropic_create :: "string \<Rightarrow> string \<Rightarrow> string \<Rightarrow> string option"
  gemini_sendMessage :: "string \<Rightarrow> string \<Rightarrow> string \<Rightarrow> string option"

definition handleOpenAIRequest :: "upstream \<Rightarrow> string \<Rightarrow> string \<Rightarrow> string \<Rightarrow> error + completion" where
  "handleOpenAIRequest up message modelId key' =
     (case openai_create up key' modelId message of
        None \<Rightarrow> Inl ProviderError
      | Some r \<Rightarrow> Inr r)"

definition handleAnthropicRequest :: "upstream \<Rightarrow> string \<Rightarrow> string \<Rightarrow> string \<Rightarrow> error + completion" where
  "handleAnthropicRequest up message modelId key' =
     (case anthropic_create up key' modelId message of
        None \<Rightarrow> Inl ProviderError
      | Some t \<Rightarrow>
          let p = \<lceil>(of_nat (length message) :: rat) / 4\<rceil>;
              c = \<lceil>(of_nat (length t) :: rat) / 4\<rceil>
          in Inr \<lparr>text_out = t,
                  usage = \<lparr>promptTokens = p, completionTokens = c, totalTokens = p + c\<rparr>\<rparr>)"

definition handleGeminiRequest :: "upstream \<Rightarrow> string \<Rightarrow> string \<Rightarrow> string \<Rightarrow> error + completion" where
  "handleGeminiRequest up message modelId key' =
     (case gemini_sendMessage up key' modelId message of
        None \<Rightarrow> Inl ProviderError
      | Some t \<Rightarrow>
          let p = \<lceil>(of_nat (length message) :: rat) / 4\<rceil>;
              c = \<lceil>(of_nat (length t) :: rat) / 4\<rceil>
          in Inr \<lparr>text_out = t,
                  usage = \<lparr>promptTokens = p, completionTokens = c, totalTokens = p + c\<rparr>\<rparr>)"

fun handleProviderRequest ::
  "upstream \<Rightarrow> provider \<Rightarrow> string \<Rightarrow> string \<Rightarrow> string \<Rightarrow> error + completion" where
  "handleProviderRequest up OpenAI message modelId key' = handleOpenAIRequest up message modelId key'"
| "handleProviderRequest up Anthropic message modelId key' = handleAnthropicRequest up message modelId key'"
| "handleProviderRequest up Gemini message modelId key' = handleGeminiRequest up message modelId key'"

subsection \<open>Chat: POST /chat\<close>

record chat_reply =
  response :: string
  reply_usage :: token_usage
  remainingTokens :: int

text \<open>The quota source a request debits: the bundle or the owned key at an index of the
  loaded user document.\<close>

datatype quota_source = TempSource nat | OwnedSource nat

record resolved =
  doc :: User
  source :: quota_source
  provider_of :: provider
  credential :: string

text \<open>\<^verbatim>\<open>a || b\<close> on an optional string: \<^verbatim>\<open>undefined\<close> and the empty string are falsy.\<close>

definition or_else :: "string option \<Rightarrow> string \<Rightarrow> string" where
  "or_else a b = (case a of None \<Rightarrow> b | Some n \<Rightarrow> if n = [] then b else n)"

text \<open>Lines 191-224 and 247-252: everything the handler does before it calls the provider.
  The user document is loaded once, here; the later checks and the debit work on this
  copy.\<close>

definition chat_resolve ::
  "upstream \<Rightarrow> db \<Rightarrow> ident \<Rightarrow> string \<Rightarrow> string \<Rightarrow> ident \<Rightarrow> string \<Rightarrow> error + resolved" where
  "chat_resolve up d userId message keyType keyId modelId =
     (if message = [] \<or> keyType = [] \<or> keyId = [] \<or> modelId = [] then Inl MissingInput
      else (case findById d userId of
        None \<Rightarrow> Inl (NotFound UserDoc)
      | Some user \<Rightarrow>
      (if keyType = ''temp'' then
         (case findIndex (\<lambda>k. tok_id k = keyId) (temporaryTokens user) of
            None \<Rightarrow> Inl (NotFound TemporaryKey)
          | Some i \<Rightarrow>
          (let tempKey = temporaryTokens user ! i
           in if tokensRemaining tempKey \<le> 0 then Inl Exhausted
           else (case findById d (sellerId tempKey) of
             None \<Rightarrow> Inl (NotFound Seller)
           | Some seller \<Rightarrow>
           (case find (\<lambda>k. key_id k = originalApiKeyId tempKey) (api_keys seller) of
             None \<Rightarrow> Inl (NotFound OriginalKey)
           | Some originalApiKey \<Rightarrow>
           (case getProviderFromModel
                   (or_else (apiKeyName tempKey) (key_name originalApiKey)) of
             Inl e \<Rightarrow> Inl e
           | Inr p \<Rightarrow>
               Inr \<lparr>doc = user, source = TempSource i, provider_of = p,
                    credential = decrypt up (key originalApiKey)\<rparr>)))))
       else if keyType = ''user'' then
         (case findIndex (\<lambda>k. key_id k = keyId) (api_keys user) of
            None \<Rightarrow> Inl (NotFound OwnedKey)
          | Some i \<Rightarrow>
          (let userKey = api_keys user ! i
           in case getProviderFromModel (key_name userKey) of
             Inl e \<Rightarrow> Inl e
           | Inr p \<Rightarrow>
               Inr \<lparr>doc = user, source = OwnedSource i, provider_of = p,
                    credential = decrypt up (key userKey)\<rparr>))
       else Inl InvalidKeyType)))"

text \<open>Lines 227-245 and 255-268: the check against the loaded copy, the debit (its result
  rounded by \<open>rnd\<close>), the pruning of an emptied bundle and the save.\<close>

definition chat_debit ::
  "(rat \<Rightarrow> rat) \<Rightarrow> resolved \<Rightarrow> ident \<Rightarrow> completion \<Rightarrow> db \<Rightarrow> (error + chat_reply) \<times> db" where
  "chat_debit rnd r keyId resp d =
     (let user = doc r; tokensUsed = totalTokens (usage resp)
      in case source r of
        TempSource i \<Rightarrow>
          (let tempKey = temporaryTokens user ! i
           in if tokensUsed > tokensRemaining tempKey then (Inl InsufficientTokens, d)
           else
           (let tempKey1 = tempKey\<lparr>tokensRemaining :=
                             rounded rnd (tokensRemaining tempKey - tokensUsed)\<rparr>;
                user1 = user\<lparr>temporaryTokens := (temporaryTokens user)[i := tempKey1]\<rparr>;
                user2 =
                  (if tokensRemaining tempKey1 \<le> 0
                   then user1\<lparr>temporaryTokens :=
                          filter (\<lambda>k. tok_id k \<noteq> keyId) (temporaryTokens user1)\<rparr>
                   else user1)
            in (Inr \<lparr>response = text_out resp, reply_usage = usage resp,
                     remainingTokens = tokensRemaining tempKey1\<rparr>, save user2 d)))
      | OwnedSource i \<Rightarrow>
          (let userKey = api_keys user ! i
           in if available userKey < tokensUsed then (Inl InsufficientTokens, d)
           else
           (let userKey1 = userKey\<lparr>available := rounded rnd (available userKey - tokensUsed)\<rparr>;
                user1 = user\<lparr>api_keys := (api_keys user)[i := userKey1]\<rparr>
            in (Inr \<lparr>response = text_out resp, reply_usage = usage resp,
                     remainingTokens = available userKey1\<rparr>, save user1 d))))"

text \<open>Lines 226 and 254 onwards: the rest of the handler once the key is resolved, run
  against the store as it is by then. The provider is called first; its failure, like a
  failure to resolve, returns with the store untouched.\<close>

definition chat_after_resolve ::
  "(rat \<Rightarrow> rat) \<Rightarrow> upstream \<Rightarrow> error + resolved \<Rightarrow> string \<Rightarrow> ident \<Rightarrow> string \<Rightarrow> db \<Rightarrow>
     (error + chat_reply) \<times> db" where
  "chat_after_resolve rnd up res message keyId modelId d =
     (case res of
        Inl e \<Rightarrow> (Inl e, d)
      | Inr r \<Rightarrow>
      (case handleProviderRequest up (provider_of r) message modelId (credential r) of
        Inl e \<Rightarrow> (Inl e, d)
      | Inr resp \<Rightarrow> chat_debit rnd r keyId resp d))"

text \<open>The whole handler, run without interruption.\<close>

definition chat ::
  "(rat \<Rightarrow> rat) \<Rightarrow> upstream \<Rightarrow> db \<Rightarrow> ident \<Rightarrow> string \<Rightarrow> string \<Rightarrow> ident \<Rightarrow> string \<Rightarrow>
     (error + chat_reply) \<times> db" where
  "chat rnd up d userId message keyType keyId modelId =
     chat_after_resolve rnd up (chat_resolve up d userId message keyType keyId modelId)
       message keyId modelId d"

text \<open>Two requests of one user against the same key. A handler gives way to others only at
  its \<^verbatim>\<open>await\<close>s: after reading the store (\<^verbatim>\<open>User.findById\<close>), around the provider call, and
  at the save. \<open>chat_in_turn\<close> runs the second request after the first has saved;
  \<open>chat_overlapped\<close> is the run in which both requests have read the store before either
  saves, the first to finish saving first.\<close>

definition chat_in_turn ::
  "(rat \<Rightarrow> rat) \<Rightarrow> upstream \<Rightarrow> db \<Rightarrow> ident \<Rightarrow> string \<Rightarrow> ident \<Rightarrow>
     string \<Rightarrow> string \<Rightarrow> string \<Rightarrow> string \<Rightarrow>
     (error + chat_reply) \<times> (error + chat_reply) \<times> db" where
  "chat_in_turn rnd up d userId keyType keyId messageA modelA messageB modelB =
     (let (outA, d1) = chat rnd up d userId messageA keyType keyId modelA;
          (outB, d2) = chat rnd up d1 userId messageB keyType keyId modelB
      in (outA, outB, d2))"

definition chat_overlapped ::
  "(rat \<Rightarrow> rat) \<Rightarrow> upstream \<Rightarrow> db \<Rightarrow> ident \<Rightarrow> string \<Rightarrow> ident \<Rightarrow>
     string \<Rightarrow> string \<Rightarrow> string \<Rightarrow> string \<Rightarrow>
     (error + chat_reply) \<times> (error + chat_reply) \<times> db" where
  "chat_overlapped rnd up d userId keyType keyId messageA modelA messageB modelB =
     (let resA = chat_resolve up d userId messageA keyType keyId modelA;
          resB = chat_resolve up d userId messageB keyType keyId modelB;
          (outA, d1) = chat_after_resolve rnd up resA messageA keyId modelA d;
          (outB, d2) = chat_after_resolve rnd up resB messageB keyId modelB d1
      in (outA, outB, d2))"

subsection \<open>Requests served one after the other\<close>

text \<open>The two routes as requests; a purchase carries the \<^verbatim>\<open>_id\<close> its new bundle would get.
  \<open>serve\<close> is the store a request leaves, \<open>serve_all\<close> the store after a list of requests,
  each served to its end before the next starts.\<close>

datatype request =
    BuyTokens ident ident ident rat ident
  | Chat ident string string ident string

fun serve :: "(rat \<Rightarrow> rat) \<Rightarrow> upstream \<Rightarrow> request \<Rightarrow> db \<Rightarrow> db" where
  "serve rnd up (BuyTokens userId sellerIdReq tokenId amountReq freshId) d =
     snd (buy_tokens rnd d userId sellerIdReq tokenId amountReq freshId)"
| "serve rnd up (Chat userId message keyType keyId modelId) d =
     snd (chat rnd up d userId message keyType keyId modelId)"

definition serve_all :: "(rat \<Rightarrow> rat) \<Rightarrow> upstream \<Rightarrow> request list \<Rightarrow> db \<Rightarrow> db" where
  "serve_all rnd up reqs d = fold (serve rnd up) reqs d"

text \<open>The bundles that carry a truthy \<^verbatim>\<open>apiKeyName\<close>, and their ids in a store.\<close>

definition named :: "TempToken \<Rightarrow> bool" where
  "named t = (case apiKeyName t of None \<Rightarrow> False | Some n \<Rightarrow> n \<noteq> [])"

definition named_ids :: "db \<Rightarrow> ident list" where
  "named_ids d = concat (map (\<lambda>u. map tok_id (filter named (temporaryTokens u))) d)"


subsection \<open>Auxiliary notions and a concrete scenario\<close>

text \<open>The letters a-z, as code units.\<close>

definition lower_letter :: "char \<Rightarrow> bool" where
  "lower_letter p = (97 \<le> (of_char p :: nat) \<and> (of_char p :: nat) \<le> 122)"


text \<open>A store with a buyer and a seller who lists ten tokens of her key at half a unit
  each; \<open>store1\<close> is the store after the buyer has spent 3 on six of them.\<close>

definition claude_key :: OwnedKeyDoc where
  "claude_key = \<lparr>key_id = ''k1'', key_name = ''Work Claude key'', key = ''enc:sk-ant'', available = 5\<rparr>"

definition listing :: TempToken where
  "listing = \<lparr>tok_id = ''t1'', name = ''gpt-4 bundle'', apiKey = ''enc:sk-ant'', apiKeyName = None,
     tokensRemaining = 10, expiresAt = 100, pricePerToken = 1 / 2, sellerId = ''bob'',
     originalApiKeyId = ''k1''\<rparr>"

definition alice :: User where
  "alice = \<lparr>user_id = ''alice'', amount = 10, api_keys = [], temporaryTokens = []\<rparr>"

definition bob :: User where
  "bob = \<lparr>user_id = ''bob'', amount = 0, api_keys = [claude_key], temporaryTokens = [listing]\<rparr>"

definition store0 :: db where
  "store0 = [alice, bob]"

definition bought :: "int \<Rightarrow> TempToken" where
  "bought n = \<lparr>tok_id = ''n1'', name = ''gpt-4 bundle'', apiKey = ''enc:sk-ant'', apiKeyName = None,
     tokensRemaining = n, expiresAt = 100, pricePerToken = 1 / 2, sellerId = ''bob'',
     originalApiKeyId = ''k1''\<rparr>"

definition store1 :: db where
  "store1 =
     [alice\<lparr>amount := 7, temporaryTokens := [bought 6]\<rparr>,
      bob\<lparr>amount := 3, temporaryTokens := [listing\<lparr>tokensRemaining := 4\<rparr>]\<rparr>]"

definition first_reply :: purchase_reply where
  "first_reply =
     \<lparr>tokensReceived = 6, amountSpent = 3, remainingBalance = 7, purchasedToken = bought 6\<rparr>"

text \<open>Upstream services that answer every call with the same text; the OpenAI one reports
  a usage of six tokens. \<open>store_full\<close> is \<open>store0\<close> after the buyer has bought all ten
  tokens of the listing.\<close>

definition demo_upstream :: "string \<Rightarrow> upstream" where
  "demo_upstream reply =
     \<lparr>decrypt = drop 4,
      openai_create = (\<lambda>k m msg. Some \<lparr>text_out = reply,
         usage = \<lparr>promptTokens = 4, completionTokens = 2, totalTokens = 6\<rparr>\<rparr>),
      anthropic_create = (\<lambda>k m msg. Some reply),
      gemini_sendMessage = (\<lambda>k m msg. Some reply)\<rparr>"


definition store_full :: db where
  "store_full =
     [alice\<lparr>amount := 5, temporaryTokens := [bought 10]\<rparr>,
      bob\<lparr>amount := 5, temporaryTokens := []\<rparr>]"

text \<open>A store with other expiry dates: every bundle's \<open>expiresAt\<close> is replaced by \<open>f\<close> of
  it, nothing else changes.\<close>

definition shift_expiry :: "(int \<Rightarrow> int) \<Rightarrow> TempToken \<Rightarrow> TempToken" where
  "shift_expiry f t = t\<lparr>expiresAt := f (expiresAt t)\<rparr>"

definition set_expiry :: "(int \<Rightarrow> int) \<Rightarrow> User \<Rightarrow> User" where
  "set_expiry f u = u\<lparr>temporaryTokens := map (shift_expiry f) (temporaryTokens u)\<rparr>"

definition with_expiry :: "(int \<Rightarrow> int) \<Rightarrow> db \<Rightarrow> db" where
  "with_expiry f d = map (set_expiry f) d"








text \<open>Large counts: the seller lists \<open>2 ^ 54\<close> tokens at one unit each and the buyer holds
  \<open>2 ^ 54\<close>; \<open>bulk_store1\<close> is the store after the buyer has bought \<open>2 ^ 53\<close> of them.\<close>

definition bulk_listing :: TempToken where
  "bulk_listing = \<lparr>tok_id = ''t1'', name = ''gpt-4 bundle'', apiKey = ''enc:sk-ant'',
     apiKeyName = None, tokensRemaining = 18014398509481984, expiresAt = 100, pricePerToken = 1,
     sellerId = ''bob'', originalApiKeyId = ''k1''\<rparr>"

definition bulk_store :: db where
  "bulk_store =
     [alice\<lparr>amount := 18014398509481984\<rparr>, bob\<lparr>temporaryTokens := [bulk_listing]\<rparr>]"

definition bulk_bought :: "int \<Rightarrow> TempToken" where
  "bulk_bought n = (bought n)\<lparr>pricePerToken := 1\<rparr>"

definition bulk_store1 :: db where
  "bulk_store1 =
     [alice\<lparr>amount := 9007199254740992, temporaryTokens := [bulk_bought 9007199254740992]\<rparr>,
      bob\<lparr>amount := 9007199254740992,
          temporaryTokens := [bulk_listing\<lparr>tokensRemaining := 9007199254740992\<rparr>]\<rparr>]"

text \<open>The buyer of \<open>store1\<close> with a bundle that carries an \<^verbatim>\<open>apiKeyName\<close>.\<close>

definition named_store :: db where
  "named_store =
     [alice\<lparr>amount := 7, temporaryTokens := [(bought 6)\<lparr>apiKeyName := Some ''gemini-pro''\<rparr>]\<rparr>,
      bob\<lparr>amount := 3, temporaryTokens := [listing\<lparr>tokensRemaining := 4\<rparr>]\<rparr>]"

section \<open>Lists and the store\<close>

lemma findIndex_Some:
  "findIndex P xs = Some i \<Longrightarrow> i < length xs \<and> P (xs ! i) \<and> (\<forall>j<i. \<not> P (xs ! j))"
proof (induction xs arbitrary: i)
  case Nil
  then show ?case by simp
next
  case (Cons x xs)
  show ?case
  proof (cases "P x")
    case True
    with Cons.prems show ?thesis by simp
  next
    case False
    with Cons.prems obtain k where k: "findIndex P xs = Some k" "i = Suc k" by auto
    from Cons.IH [OF k(1)] False k(2) show ?thesis
      by (auto simp: less_Suc_eq_0_disj)
  qed
qed

lemma findIndex_None: "findIndex P xs = None \<longleftrightarrow> (\<forall>x\<in>set xs. \<not> P x)"
  by (induction xs) auto

lemma findIndex_find: "findIndex P xs = Some i \<Longrightarrow> find P xs = Some (xs ! i)"
  by (induction xs arbitrary: i) (auto split: if_splits)

lemma find_findIndex: "find P xs = Some x \<Longrightarrow> \<exists>i. findIndex P xs = Some i \<and> xs ! i = x"
  by (induction xs) (auto split: if_splits)

lemma findIndex_append_new:
  "findIndex P xs = None \<Longrightarrow> P x \<Longrightarrow> findIndex P (xs @ [x]) = Some (length xs)"
  by (induction xs) (auto split: if_splits)

lemma findIndex_update_same:
  "findIndex P xs = Some i \<Longrightarrow> P y \<Longrightarrow> findIndex P (xs[i := y]) = Some i"
proof (induction xs arbitrary: i)
  case Nil
  then show ?case by simp
next
  case (Cons x xs)
  then show ?case by (cases i) (auto split: if_splits)
qed

lemma findById_id: "findById d i = Some u \<Longrightarrow> user_id u = i"
  unfolding findById_def by (induction d) (auto split: if_splits)

lemma findById_save:
  "findById (save u d) i =
     (if i = user_id u then (case findById d i of None \<Rightarrow> None | Some v \<Rightarrow> Some u)
      else findById d i)"
  unfolding findById_def save_def by (induction d) auto

lemma findById_save_same: "findById d (user_id u) = Some v \<Longrightarrow> findById (save u d) (user_id u) = Some u"
  by (simp add: findById_save)

lemma findById_save_other: "i \<noteq> user_id u \<Longrightarrow> findById (save u d) i = findById d i"
  by (simp add: findById_save)

section \<open>Provider inference\<close>

lemma startsWith_iff: "startsWith s p \<longleftrightarrow> (\<exists>post. s = p @ post)"
  by (induction s p rule: startsWith.induct) auto

lemma str_includes_iff: "str_includes s p \<longleftrightarrow> (\<exists>pre post. s = pre @ p @ post)"
proof (induction s)
  case Nil
  then show ?case by auto
next
  case (Cons c cs)
  show ?case
  proof
    assume "str_includes (c # cs) p"
    then consider "startsWith (c # cs) p" | "str_includes cs p" by auto
    then show "\<exists>pre post. c # cs = pre @ p @ post"
    proof cases
      case 1
      then obtain post where "c # cs = p @ post" by (auto simp: startsWith_iff)
      then have "c # cs = [] @ p @ post" by simp
      then show ?thesis by blast
    next
      case 2
      then obtain pre post where "cs = pre @ p @ post" using Cons.IH by auto
      then have "c # cs = (c # pre) @ p @ post" by simp
      then show ?thesis by blast
    qed
  next
    assume "\<exists>pre post. c # cs = pre @ p @ post"
    then obtain pre post where e: "c # cs = pre @ p @ post" by auto
    show "str_includes (c # cs) p"
    proof (cases pre)
      case Nil
      with e have "startsWith (c # cs) p" by (auto simp: startsWith_iff)
      then show ?thesis by simp
    next
      case (Cons a pre')
      with e have "cs = pre' @ p @ post" by simp
      then have "str_includes cs p" using Cons.IH by blast
      then show ?thesis by simp
    qed
  qed
qed

lemma startsWith_str_includes: "startsWith s p \<Longrightarrow> str_includes s p"
  by (cases s) (auto simp: startsWith_iff)

lemma toLowerCase_char_eq_iff:
  assumes "lower_letter p"
  shows "toLowerCase_char c = p \<longleftrightarrow> same_letter c p"
proof -
  define n where "n = (of_char c :: nat)"
  define m where "m = (of_char p :: nat)"
  have lt: "n < 256" unfolding n_def by (rule nat_of_char_less_256)
  have m: "97 \<le> m" "m \<le> 122" using assms unfolding lower_letter_def m_def by simp_all
  have cp: "(n = m) = (c = p)" unfolding n_def m_def by simp
  have lower: "(of_char (toLowerCase_char c) :: nat) =
      (if (65 \<le> n \<and> n \<le> 90) \<or> (192 \<le> n \<and> n \<le> 222 \<and> n \<noteq> 215) then n + 32 else n)"
    using lt unfolding toLowerCase_char_def Let_def n_def [symmetric]
    by (simp add: n_def)
  have "toLowerCase_char c = p \<longleftrightarrow> (of_char (toLowerCase_char c) :: nat) = m"
    unfolding m_def by simp
  also have "\<dots> \<longleftrightarrow> (n = m \<or> n + 32 = m)"
    unfolding lower using m lt by auto
  also have "\<dots> \<longleftrightarrow> same_letter c p"
    unfolding same_letter_def cp n_def m_def by simp
  finally show ?thesis .
qed

lemma map_toLowerCase_eq_iff:
  "\<forall>p\<in>set ps. lower_letter p \<Longrightarrow>
     map toLowerCase_char cs = ps \<longleftrightarrow> list_all2 same_letter cs ps"
proof (induction cs arbitrary: ps)
  case Nil
  then show ?case by auto
next
  case (Cons c cs)
  then show ?case
    by (cases ps) (auto simp: toLowerCase_char_eq_iff)
qed

lemma includes_lower_iff:
  assumes "\<forall>p\<in>set ps. lower_letter p"
  shows "str_includes (toLowerCase s) ps \<longleftrightarrow> contains_ignoring_case s ps"
proof
  assume "str_includes (toLowerCase s) ps"
  then obtain pre post where "map toLowerCase_char s = pre @ ps @ post"
    by (auto simp: str_includes_iff toLowerCase_def)
  then obtain a rest where a: "s = a @ rest" and r: "ps @ post = map toLowerCase_char rest"
    unfolding map_eq_append_conv by blast
  from r [symmetric] obtain b c where "rest = b @ c" "map toLowerCase_char b = ps"
    unfolding map_eq_append_conv by blast
  with a have "s = a @ b @ c" "map toLowerCase_char b = ps" by simp_all
  then show "contains_ignoring_case s ps"
    using assms by (auto simp: contains_ignoring_case_def map_toLowerCase_eq_iff)
next
  assume "contains_ignoring_case s ps"
  then obtain a b c where s: "s = a @ b @ c" and "list_all2 same_letter b ps"
    by (auto simp: contains_ignoring_case_def)
  then have "map toLowerCase_char b = ps"
    using assms by (simp add: map_toLowerCase_eq_iff)
  then have "toLowerCase s = map toLowerCase_char a @ ps @ map toLowerCase_char c"
    using s by (simp add: toLowerCase_def)
  then show "str_includes (toLowerCase s) ps"
    unfolding str_includes_iff by blast
qed

lemma letters_gpt: "\<forall>p\<in>set ''gpt''. lower_letter p"
  by (simp add: lower_letter_def)

lemma letters_claude: "\<forall>p\<in>set ''claude''. lower_letter p"
  by (simp add: lower_letter_def)

lemma letters_gemini: "\<forall>p\<in>set ''gemini''. lower_letter p"
  by (simp add: lower_letter_def)

text \<open>Claim C2. For every name, \<open>getProviderFromModel\<close> is the first-match rule on
  case-insensitive substrings: a name containing "gpt" gives OpenAI; otherwise one containing
  "claude" gives Anthropic; otherwise one containing "gemini" gives Gemini; any other name
  fails with \<open>UnknownProvider\<close>. The named examples follow, and a name with several of the
  substrings resolves in the order of the checks.\<close>

theorem getProviderFromModel_first_match:
  "getProviderFromModel n =
     (if contains_ignoring_case n ''gpt'' then Inr OpenAI
      else if contains_ignoring_case n ''claude'' then Inr Anthropic
      else if contains_ignoring_case n ''gemini'' then Inr Gemini
      else Inl (UnknownProvider n))
   \<and> getProviderFromModel ''gpt-4'' = Inr OpenAI
   \<and> getProviderFromModel ''claude-3-opus-20240229'' = Inr Anthropic
   \<and> getProviderFromModel ''gemini-1.5-pro'' = Inr Gemini
   \<and> getProviderFromModel ''llama-3'' = Inl (UnknownProvider ''llama-3'')
   \<and> getProviderFromModel ''Gemini via Claude (GPT style)'' = Inr OpenAI
   \<and> getProviderFromModel ''GEMINI-or-CLAUDE'' = Inr Anthropic"
proof -
  have rule: "getProviderFromModel n =
     (if contains_ignoring_case n ''gpt'' then Inr OpenAI
      else if contains_ignoring_case n ''claude'' then Inr Anthropic
      else if contains_ignoring_case n ''gemini'' then Inr Gemini
      else Inl (UnknownProvider n))"
    using startsWith_str_includes [of "toLowerCase n" "''gpt''"]
    unfolding getProviderFromModel_def Let_def
      includes_lower_iff [OF letters_gpt, symmetric]
      includes_lower_iff [OF letters_claude, symmetric]
      includes_lower_iff [OF letters_gemini, symmetric]
    by auto
  have e1: "getProviderFromModel ''gpt-4'' = Inr OpenAI" by code_simp
  have e2: "getProviderFromModel ''claude-3-opus-20240229'' = Inr Anthropic" by code_simp
  have e3: "getProviderFromModel ''gemini-1.5-pro'' = Inr Gemini" by code_simp
  have e4: "getProviderFromModel ''llama-3'' = Inl (UnknownProvider ''llama-3'')" by code_simp
  have e5: "getProviderFromModel ''Gemini via Claude (GPT style)'' = Inr OpenAI" by code_simp
  have e6: "getProviderFromModel ''GEMINI-or-CLAUDE'' = Inr Anthropic" by code_simp
  from rule e1 e2 e3 e4 e5 e6 show ?thesis by blast
qed


text \<open>The rule at a name in mixed case that has "claude" and not "gpt".\<close>

theorem getProviderFromModel_first_match_witness:
  "contains_ignoring_case ''My Claude key'' ''claude''
   \<and> \<not> contains_ignoring_case ''My Claude key'' ''gpt''
   \<and> getProviderFromModel ''My Claude key'' = Inr Anthropic"
proof -
  have c: "str_includes (toLowerCase ''My Claude key'') ''claude''" by code_simp
  have g: "\<not> str_includes (toLowerCase ''My Claude key'') ''gpt''" by code_simp
  have r: "getProviderFromModel ''My Claude key'' =
     (if contains_ignoring_case ''My Claude key'' ''gpt'' then Inr OpenAI
      else if contains_ignoring_case ''My Claude key'' ''claude'' then Inr Anthropic
      else if contains_ignoring_case ''My Claude key'' ''gemini'' then Inr Gemini
      else Inl (UnknownProvider ''My Claude key''))"
    by (rule conjunct1 [OF getProviderFromModel_first_match])
  show ?thesis
    unfolding r using c g
    by (simp add: includes_lower_iff [OF letters_gpt] includes_lower_iff [OF letters_claude])
qed

section \<open>Rounding\<close>

lemma pow2_pos: "0 < pow2 k"
proof (induction k rule: pow2.induct)
  case (1 k)
  then show ?case by (subst pow2.simps) auto
qed

lemma pow2_nat: "pow2 (int j) = 2 ^ j"
proof (induction j)
  case 0
  show ?case by (subst pow2.simps) simp
next
  case (Suc j)
  have "pow2 (int (Suc j)) = 2 * pow2 (int (Suc j) - 1)"
    by (subst pow2.simps) simp
  also have "int (Suc j) - 1 = int j" by simp
  finally show ?case using Suc by simp
qed

lemma pow2_neg_nat: "pow2 (- int j) = 1 / 2 ^ j"
proof (induction j)
  case 0
  show ?case by (subst pow2.simps) simp
next
  case (Suc j)
  have "pow2 (- int (Suc j)) = pow2 (- int (Suc j) + 1) / 2"
    by (subst pow2.simps) simp
  also have "- int (Suc j) + 1 = - int j" by simp
  finally show ?case using Suc by simp
qed

lemma bit_length_le: "n < 2 ^ j \<Longrightarrow> bit_length n \<le> int j"
proof (induction j arbitrary: n)
  case 0
  then show ?case by (subst bit_length.simps) simp
next
  case (Suc j)
  show ?case
  proof (cases "n \<le> 0")
    case True
    then show ?thesis by (subst bit_length.simps) simp
  next
    case False
    from Suc.prems have "n div 2 < 2 ^ j" by simp
    from Suc.IH [OF this] False show ?thesis by (subst bit_length.simps) simp
  qed
qed

lemma bit_length_one: "bit_length 1 = 1"
  by code_simp

lemma quotient_of_whole: "quotient_of (of_int k) = (k, 1)"
  by (simp add: of_int_rat quotient_of_Fract)

lemma sgn_of_whole: "sgn (of_int n :: rat) = of_int (sgn n)"
  by (simp add: sgn_if)

lemma round_half_even_of_int: "round_half_even (of_int k) = k"
  by (simp add: round_half_even_def)

lemma round_half_even_nonneg: "0 \<le> q \<Longrightarrow> 0 \<le> round_half_even q"
  by (simp add: round_half_even_def Let_def)

text \<open>A whole number whose exponent is at most 52 has a significand of at most 53 bits and
  is a double; one with a larger exponent is rounded to a multiple of a power of two.\<close>

lemma round_double_small_exponent:
  assumes "exponent_of \<bar>of_int n\<bar> \<le> 52"
  shows "round_double (of_int n) = of_int n"
proof (cases "n = 0")
  case True
  then show ?thesis by (simp add: round_double_def)
next
  case False
  define e where "e = exponent_of \<bar>of_int n\<bar>"
  define j where "j = nat (52 - e)"
  have ej: "e - 52 = - int j" using assms unfolding e_def j_def by simp
  have scaled: "\<bar>of_int n :: rat\<bar> / pow2 (e - 52) = of_int (\<bar>n\<bar> * 2 ^ j)"
    unfolding ej pow2_neg_nat by simp
  have "round_double (of_int n) =
      sgn (of_int n) * of_int (round_half_even (\<bar>of_int n\<bar> / pow2 (e - 52))) * pow2 (e - 52)"
    using False unfolding round_double_def Let_def e_def by simp
  also have "\<dots> = sgn (of_int n) * of_int (\<bar>n\<bar> * 2 ^ j) * (1 / 2 ^ j)"
    unfolding scaled round_half_even_of_int unfolding ej pow2_neg_nat ..
  also have "\<dots> = sgn (of_int n) * \<bar>of_int n\<bar>" by simp
  also have "\<dots> = of_int n" by (simp add: sgn_mult_abs)
  finally show ?thesis .
qed

lemma round_double_exact:
  assumes "\<bar>n\<bar> < 2 ^ 53"
  shows "round_double (of_int n) = of_int n"
proof (rule round_double_small_exponent)
  have q: "quotient_of \<bar>of_int n :: rat\<bar> = (\<bar>n\<bar>, 1)"
    using quotient_of_whole [of "\<bar>n\<bar>"] by simp
  have "bit_length \<bar>n\<bar> \<le> 53"
    using bit_length_le [of "\<bar>n\<bar>" 53] assms by simp
  then show "exponent_of \<bar>of_int n\<bar> \<le> 52"
    unfolding exponent_of_def q by (simp add: bit_length_one Let_def)
qed

lemma round_double_of_int: "\<exists>k. round_double (of_int n) = of_int k"
proof (cases "exponent_of \<bar>of_int n\<bar> \<le> 52")
  case True
  from round_double_small_exponent [OF this] show ?thesis by blast
next
  case False
  define e where "e = exponent_of \<bar>of_int n\<bar>"
  define j where "j = nat (e - 52)"
  have ej: "e - 52 = int j" using False unfolding e_def j_def by simp
  show ?thesis
  proof (cases "n = 0")
    case True
    then have "round_double (of_int n) = of_int 0" by (simp add: round_double_def)
    then show ?thesis by blast
  next
    case nz: False
    have "round_double (of_int n) =
        sgn (of_int n) * of_int (round_half_even (\<bar>of_int n\<bar> / pow2 (e - 52))) * pow2 (e - 52)"
      using nz unfolding round_double_def Let_def e_def by simp
    also have "\<dots> = of_int (sgn n * round_half_even (\<bar>of_int n\<bar> / pow2 (e - 52)) * 2 ^ j)"
      unfolding ej pow2_nat by (simp add: sgn_of_whole)
    finally show ?thesis by blast
  qed
qed

lemma round_double_nonneg:
  assumes "0 \<le> x"
  shows "0 \<le> round_double x"
proof (cases "x = 0")
  case True
  then show ?thesis by (simp add: round_double_def)
next
  case False
  with assms have pos: "0 < x" by simp
  have "0 \<le> \<bar>x\<bar> / pow2 (exponent_of \<bar>x\<bar> - 52)"
    using pow2_pos [of "exponent_of \<bar>x\<bar> - 52"] by simp
  from round_half_even_nonneg [OF this] pos pow2_pos [of "exponent_of \<bar>x\<bar> - 52"]
  show ?thesis
    unfolding round_double_def Let_def by simp
qed

text \<open>On counts: exact arithmetic leaves a count as it is, and so do doubles below
  \<open>2 ^ 53\<close>; from there on a double holds the nearest even multiple.\<close>

lemma rounded_id [simp]: "rounded (\<lambda>x. x) n = n"
  by (simp add: rounded_def)

lemma rounded_exact: "\<bar>n\<bar> < 2 ^ 53 \<Longrightarrow> rounded round_double n = n"
  by (simp add: rounded_def round_double_exact)

lemma rounded_nonneg: "(\<forall>x. 0 \<le> x \<longrightarrow> 0 \<le> rnd x) \<Longrightarrow> 0 \<le> n \<Longrightarrow> 0 \<le> rounded rnd n"
  by (simp add: rounded_def)

lemma rounded_double_nonneg: "0 \<le> n \<Longrightarrow> 0 \<le> rounded round_double n"
  by (simp add: rounded_def round_double_nonneg)

lemma rounded_examples:
  "rounded round_double (2 ^ 53) = 2 ^ 53"
  "rounded round_double (2 ^ 53 + 1) = 2 ^ 53"
  "rounded round_double (2 ^ 53 + 2) = 2 ^ 53 + 2"
  "rounded round_double (2 ^ 53 + 3) = 2 ^ 53 + 4"
  "rounded round_double (2 ^ 60 - 8) = 2 ^ 60"
  "rounded round_double (- (2 ^ 53) - 1) = - (2 ^ 53)"
  unfolding rounded_def by code_simp+

lemma round_double_numeral:
  "numeral k < (2 :: int) ^ 53 \<Longrightarrow> round_double (numeral k) = numeral k"
  using round_double_exact [of "numeral k"] by simp

lemma round_double_zero_one: "round_double 0 = 0" "round_double 1 = 1"
  using round_double_exact [of 0] round_double_exact [of 1] by simp_all

lemma rounded_numeral:
  "numeral k < (2 :: int) ^ 53 \<Longrightarrow> rounded round_double (numeral k) = numeral k"
  using rounded_exact [of "numeral k"] by simp

lemma rounded_zero_one: "rounded round_double 0 = 0" "rounded round_double 1 = 1"
  using rounded_exact [of 0] rounded_exact [of 1] by simp_all

lemmas double_whole =
  round_double_numeral round_double_zero_one rounded_numeral rounded_zero_one

text \<open>At and above \<open>2 ^ 53\<close>.\<close>

lemma double_bulk:
  "round_double 9007199254740992 = 9007199254740992"
  "round_double 9007199254740993 = 9007199254740992"
  "round_double 18014398509481984 = 18014398509481984"
  "rounded round_double 9007199254740992 = 9007199254740992"
  "rounded round_double 9007199254740993 = 9007199254740992"
  "rounded round_double 1152921504606846968 = 1152921504606846976"
  unfolding rounded_def by code_simp+

section \<open>Purchase\<close>

lemma purchase_Inr:
  assumes "purchase rnd d userId sid tid a fid = Inr (reply, b', s')"
  shows "\<exists>buyer seller i.
    findById d userId = Some buyer \<and> findById d sid = Some seller \<and>
    findIndex (\<lambda>t. tok_id t = tid) (temporaryTokens seller) = Some i \<and>
    sid \<noteq> [] \<and> tid \<noteq> [] \<and> 0 < a \<and> a \<le> amount buyer \<and>
    pricePerToken (temporaryTokens seller ! i) \<noteq> 0 \<and>
    0 < \<lfloor>rnd (a / pricePerToken (temporaryTokens seller ! i))\<rfloor> \<and>
    \<lfloor>rnd (a / pricePerToken (temporaryTokens seller ! i))\<rfloor> \<le> tokensRemaining (temporaryTokens seller ! i) \<and>
    tokensReceived reply = \<lfloor>rnd (a / pricePerToken (temporaryTokens seller ! i))\<rfloor> \<and>
    amountSpent reply = rnd (of_int (tokensReceived reply) * pricePerToken (temporaryTokens seller ! i)) \<and>
    remainingBalance reply = rnd (amount buyer - amountSpent reply) \<and>
    b' = buyer\<lparr>amount := rnd (amount buyer - amountSpent reply),
               temporaryTokens :=
                 (case findIndex (\<lambda>t. name t = name (temporaryTokens seller ! i) \<and> sellerId t = sid)
                        (temporaryTokens buyer) of
                    Some j \<Rightarrow> (temporaryTokens buyer)
                       [j := (temporaryTokens buyer ! j)
                          \<lparr>tokensRemaining :=
                             rounded rnd (tokensRemaining (temporaryTokens buyer ! j) + tokensReceived reply)\<rparr>]
                  | None \<Rightarrow> temporaryTokens buyer @
                       [\<lparr>tok_id = fid, name = name (temporaryTokens seller ! i),
                         apiKey = apiKey (temporaryTokens seller ! i), apiKeyName = None,
                         tokensRemaining = tokensReceived reply,
                         expiresAt = expiresAt (temporaryTokens seller ! i),
                         pricePerToken = pricePerToken (temporaryTokens seller ! i),
                         sellerId = user_id seller,
                         originalApiKeyId = originalApiKeyId (temporaryTokens seller ! i)\<rparr>])\<rparr> \<and>
    s' = seller\<lparr>amount := rnd (amount seller + amountSpent reply),
                temporaryTokens :=
                  (if rounded rnd (tokensRemaining (temporaryTokens seller ! i) - tokensReceived reply) \<le> 0
                   then filter (\<lambda>t. tok_id t \<noteq> tid)
                      ((temporaryTokens seller)
                         [i := (temporaryTokens seller ! i)
                            \<lparr>tokensRemaining :=
                               rounded rnd (tokensRemaining (temporaryTokens seller ! i) - tokensReceived reply)\<rparr>])
                   else (temporaryTokens seller)
                         [i := (temporaryTokens seller ! i)
                            \<lparr>tokensRemaining :=
                               rounded rnd (tokensRemaining (temporaryTokens seller ! i) - tokensReceived reply)\<rparr>])\<rparr>"
  using assms unfolding purchase_def Let_def
  by (auto split: if_splits option.splits prod.splits)

lemma buy_tokens_Inr:
  assumes "buy_tokens rnd d userId sid tid a fid = (Inr reply, d')"
  shows "\<exists>b' s'. purchase rnd d userId sid tid a fid = Inr (reply, b', s') \<and> d' = save s' (save b' d)"
  using assms unfolding buy_tokens_def by (auto split: sum.splits prod.splits)


lemma purchase_stored:
  assumes p: "purchase rnd d userId sid tid a fid = Inr (reply, b', s')"
  shows "findById (save s' (save b' d)) sid = Some s'"
    and "userId \<noteq> sid \<Longrightarrow> findById (save s' (save b' d)) userId = Some b'"
proof -
  from purchase_Inr [OF p] obtain buyer seller where
    fb: "findById d userId = Some buyer" and fs: "findById d sid = Some seller" and
    ib: "user_id b' = user_id buyer" and "user_id s' = user_id seller"
    by (elim exE conjE) simp
  then have ids: "user_id b' = userId" "user_id s' = sid"
    using findById_id [OF fb] findById_id [OF fs] by simp_all
  have "findById (save b' d) sid \<noteq> None"
    using fb fs ids by (simp add: findById_save)
  then show "findById (save s' (save b' d)) sid = Some s'"
    using ids by (auto simp: findById_save)
  show "findById (save s' (save b' d)) userId = Some b'" if "userId \<noteq> sid"
    using that fb ids by (simp add: findById_save)
qed


lemmas scenario_defs = claude_key_def listing_def alice_def bob_def store0_def bought_def store1_def

lemma floor_rat_numeral: "\<lfloor>(numeral a :: rat) / numeral b\<rfloor> = numeral a div numeral b"
  by (metis floor_divide_of_int_eq of_int_numeral)

lemma first_purchase:
  "buy_tokens (\<lambda>x. x) store0 ''alice'' ''bob'' ''t1'' (16 / 5) ''n1'' =
     (Inr \<lparr>tokensReceived = 6, amountSpent = 3, remainingBalance = 7, purchasedToken = bought 6\<rparr>,
      store1)"
  by (simp add: buy_tokens_def purchase_def findById_def save_def scenario_defs Let_def
      floor_rat_numeral)

text \<open>The scenario in double arithmetic, with an amount that is a whole number.\<close>

lemma first_purchase_double:
  "buy_tokens round_double store0 ''alice'' ''bob'' ''t1'' 3 ''n1'' = (Inr first_reply, store1)"
  by (simp add: buy_tokens_def purchase_def findById_def save_def scenario_defs first_reply_def
      Let_def double_whole)



lemma round_double_examples:
  "round_double (1 / 2) = 1 / 2"
  "round_double (1 / 10) = 3602879701896397 / 36028797018963968"
  "round_double (- 3) = - 3"
  by code_simp+







lemma purchase_Inl_supply:
  assumes "sid \<noteq> []" "tid \<noteq> []" "0 < a"
    and "findById d userId = Some buyer" "a \<le> amount buyer"
    and "findById d sid = Some seller"
    and "find (\<lambda>t. tok_id t = tid) (temporaryTokens seller) = Some token"
    and "pricePerToken token \<noteq> 0"
    and "0 < \<lfloor>rnd (a / pricePerToken token)\<rfloor>"
    and "tokensRemaining token < \<lfloor>rnd (a / pricePerToken token)\<rfloor>"
  shows "purchase rnd d userId sid tid a fid = Inl InsufficientSupply"
proof -
  from find_findIndex [OF assms(7)] obtain i where
    "findIndex (\<lambda>t. tok_id t = tid) (temporaryTokens seller) = Some i"
    "temporaryTokens seller ! i = token" by blast
  with assms show ?thesis
    unfolding purchase_def Let_def by simp
qed

lemma purchase_Inl_amount:
  assumes "sid \<noteq> []" "tid \<noteq> []" "0 < a"
    and "findById d userId = Some buyer" "a \<le> amount buyer"
    and "findById d sid = Some seller"
    and "find (\<lambda>t. tok_id t = tid) (temporaryTokens seller) = Some token"
    and "pricePerToken token \<noteq> 0"
    and "\<lfloor>rnd (a / pricePerToken token)\<rfloor> \<le> 0"
  shows "purchase rnd d userId sid tid a fid = Inl InvalidAmount"
proof -
  from find_findIndex [OF assms(7)] obtain i where
    "findIndex (\<lambda>t. tok_id t = tid) (temporaryTokens seller) = Some i"
    "temporaryTokens seller ! i = token" by blast
  with assms show ?thesis
    unfolding purchase_def Let_def by simp
qed

lemma buy_tokens_Inl: "purchase rnd d userId sid tid a fid = Inl e \<Longrightarrow> buy_tokens rnd d userId sid tid a fid = (Inl e, d)"
  unfolding buy_tokens_def by simp

lemma find_update_same_id:
  assumes "findIndex (\<lambda>t. tok_id t = tid) xs = Some i"
  shows "find (\<lambda>t. tok_id t = tid) (xs[i := (xs ! i)\<lparr>tokensRemaining := r\<rparr>]) =
           Some ((xs ! i)\<lparr>tokensRemaining := r\<rparr>)"
proof -
  from findIndex_Some [OF assms] have i: "i < length xs" "tok_id (xs ! i) = tid" by simp_all
  then have "findIndex (\<lambda>t. tok_id t = tid) (xs[i := (xs ! i)\<lparr>tokensRemaining := r\<rparr>]) = Some i"
    by (intro findIndex_update_same [OF assms]) simp
  from findIndex_find [OF this] i show ?thesis by simp
qed

text \<open>Claim C4. A purchase never drives the seller bundle's \<open>tokensRemaining\<close> below 0: a
  successful purchase takes no more tokens than the bundle holds, so that the count it
  leaves, the rounded difference, is not negative (for every rounding that keeps the sign,
  as \<open>round_double\<close> and exact arithmetic do), and a request that has passed the earlier
  checks and whose computed token count exceeds what the bundle holds fails with
  \<open>InsufficientSupply\<close>. When the decrement leaves 0, no bundle with the id is in the
  seller's stored collection after the purchase; otherwise the bundle is there with the
  decremented count. No other bundle of the seller changes.\<close>

theorem purchase_supply:
  "(buy_tokens rnd d userId sellerIdReq tokenId amountReq freshId = (Inr reply, d') \<longrightarrow>
      (\<exists>seller token seller' left.
         findById d sellerIdReq = Some seller \<and>
         find (\<lambda>t. tok_id t = tokenId) (temporaryTokens seller) = Some token \<and>
         findById d' sellerIdReq = Some seller' \<and>
         tokensReceived reply \<le> tokensRemaining token \<and>
         left = rounded rnd (tokensRemaining token - tokensReceived reply) \<and>
         ((\<forall>x. 0 \<le> x \<longrightarrow> 0 \<le> rnd x) \<longrightarrow> 0 \<le> left) \<and>
         (left \<le> 0 \<longrightarrow> (\<forall>t\<in>set (temporaryTokens seller'). tok_id t \<noteq> tokenId)) \<and>
         (0 < left \<longrightarrow>
            find (\<lambda>t. tok_id t = tokenId) (temporaryTokens seller') =
              Some (token\<lparr>tokensRemaining := left\<rparr>)) \<and>
         (\<forall>t\<in>set (temporaryTokens seller').
            t \<in> set (temporaryTokens seller) \<or> t = token\<lparr>tokensRemaining := left\<rparr>)))
   \<and> (sellerIdReq \<noteq> [] \<and> tokenId \<noteq> [] \<and> 0 < amountReq \<and>
        findById d userId = Some buyer \<and> amountReq \<le> amount buyer \<and>
        findById d sellerIdReq = Some seller0 \<and>
        find (\<lambda>t. tok_id t = tokenId) (temporaryTokens seller0) = Some token0 \<and>
        pricePerToken token0 \<noteq> 0 \<and> 0 \<le> tokensRemaining token0 \<and>
        tokensRemaining token0 < \<lfloor>rnd (amountReq / pricePerToken token0)\<rfloor> \<longrightarrow>
        buy_tokens rnd d userId sellerIdReq tokenId amountReq freshId = (Inl InsufficientSupply, d))"
proof (intro conjI impI)
  assume ok: "buy_tokens rnd d userId sellerIdReq tokenId amountReq freshId = (Inr reply, d')"
  from buy_tokens_Inr [OF ok] obtain b' s' where
    p: "purchase rnd d userId sellerIdReq tokenId amountReq freshId = Inr (reply, b', s')" and
    d': "d' = save s' (save b' d)" by blast
  from purchase_Inr [OF p] obtain seller i where
    fs: "findById d sellerIdReq = Some seller" and
    fi: "findIndex (\<lambda>t. tok_id t = tokenId) (temporaryTokens seller) = Some i" and
    le: "\<lfloor>rnd (amountReq / pricePerToken (temporaryTokens seller ! i))\<rfloor> \<le> tokensRemaining (temporaryTokens seller ! i)" and
    tr: "tokensReceived reply = \<lfloor>rnd (amountReq / pricePerToken (temporaryTokens seller ! i))\<rfloor>" and
    ts: "temporaryTokens s' =
           (if rounded rnd (tokensRemaining (temporaryTokens seller ! i) - tokensReceived reply) \<le> 0
            then filter (\<lambda>t. tok_id t \<noteq> tokenId)
               ((temporaryTokens seller)
                  [i := (temporaryTokens seller ! i)
                     \<lparr>tokensRemaining :=
                        rounded rnd (tokensRemaining (temporaryTokens seller ! i) - tokensReceived reply)\<rparr>])
            else (temporaryTokens seller)
                  [i := (temporaryTokens seller ! i)
                     \<lparr>tokensRemaining :=
                        rounded rnd (tokensRemaining (temporaryTokens seller ! i) - tokensReceived reply)\<rparr>])"
    by (elim exE conjE) simp
  define token where "token = temporaryTokens seller ! i"
  define left where "left = rounded rnd (tokensRemaining token - tokensReceived reply)"
  define token1 where "token1 = token\<lparr>tokensRemaining := left\<rparr>"
  have ft: "find (\<lambda>t. tok_id t = tokenId) (temporaryTokens seller) = Some token"
    unfolding token_def by (rule findIndex_find [OF fi])
  have st: "findById d' sellerIdReq = Some s'"
    unfolding d' by (rule purchase_stored(1) [OF p])
  have ts': "temporaryTokens s' =
      (if left \<le> 0
       then filter (\<lambda>t. tok_id t \<noteq> tokenId) ((temporaryTokens seller)[i := token1])
       else (temporaryTokens seller)[i := token1])"
    using ts unfolding token1_def left_def token_def by simp
  have a: "tokensReceived reply \<le> tokensRemaining token"
    using le tr unfolding token_def by simp
  have n: "(\<forall>x. 0 \<le> x \<longrightarrow> 0 \<le> rnd x) \<longrightarrow> 0 \<le> left"
    unfolding left_def using a by (auto intro: rounded_nonneg)
  have b: "left \<le> 0 \<longrightarrow> (\<forall>t\<in>set (temporaryTokens s'). tok_id t \<noteq> tokenId)"
    unfolding ts' by simp
  have c: "0 < left \<longrightarrow>
            find (\<lambda>t. tok_id t = tokenId) (temporaryTokens s') = Some token1"
    unfolding ts' token1_def token_def using find_update_same_id [OF fi] by simp
  have e: "\<forall>t\<in>set (temporaryTokens s'). t \<in> set (temporaryTokens seller) \<or> t = token1"
    unfolding ts' using set_update_subset_insert [of "temporaryTokens seller" i token1] by auto
  from fs ft st a n b c e show "\<exists>seller token seller' left.
         findById d sellerIdReq = Some seller \<and>
         find (\<lambda>t. tok_id t = tokenId) (temporaryTokens seller) = Some token \<and>
         findById d' sellerIdReq = Some seller' \<and>
         tokensReceived reply \<le> tokensRemaining token \<and>
         left = rounded rnd (tokensRemaining token - tokensReceived reply) \<and>
         ((\<forall>x. 0 \<le> x \<longrightarrow> 0 \<le> rnd x) \<longrightarrow> 0 \<le> left) \<and>
         (left \<le> 0 \<longrightarrow> (\<forall>t\<in>set (temporaryTokens seller'). tok_id t \<noteq> tokenId)) \<and>
         (0 < left \<longrightarrow>
            find (\<lambda>t. tok_id t = tokenId) (temporaryTokens seller') =
              Some (token\<lparr>tokensRemaining := left\<rparr>)) \<and>
         (\<forall>t\<in>set (temporaryTokens seller').
            t \<in> set (temporaryTokens seller) \<or> t = token\<lparr>tokensRemaining := left\<rparr>)"
    unfolding token1_def using left_def by blast
next
  assume h: "sellerIdReq \<noteq> [] \<and> tokenId \<noteq> [] \<and> 0 < amountReq \<and>
        findById d userId = Some buyer \<and> amountReq \<le> amount buyer \<and>
        findById d sellerIdReq = Some seller0 \<and>
        find (\<lambda>t. tok_id t = tokenId) (temporaryTokens seller0) = Some token0 \<and>
        pricePerToken token0 \<noteq> 0 \<and> 0 \<le> tokensRemaining token0 \<and>
        tokensRemaining token0 < \<lfloor>rnd (amountReq / pricePerToken token0)\<rfloor>"
  then have "0 < \<lfloor>rnd (amountReq / pricePerToken token0)\<rfloor>" by linarith
  with h have "purchase rnd d userId sellerIdReq tokenId amountReq freshId = Inl InsufficientSupply"
    by (intro purchase_Inl_supply [where buyer = buyer and seller = seller0 and token = token0]) simp_all
  then show "buy_tokens rnd d userId sellerIdReq tokenId amountReq freshId = (Inl InsufficientSupply, d)"
    by (rule buy_tokens_Inl)
qed

lemma purchase_seller_bundle:
  assumes p: "purchase rnd d userId sid tid a fid = Inr (reply, b', s')"
    and fs: "findById d sid = Some seller"
    and ft: "find (\<lambda>t. tok_id t = tid) (temporaryTokens seller) = Some token"
    and f1: "find (\<lambda>t. tok_id t = tid) (temporaryTokens s') = Some token1"
  shows "token1 = token\<lparr>tokensRemaining :=
                     rounded rnd (tokensRemaining token - tokensReceived reply)\<rparr>"
proof -
  from purchase_Inr [OF p] fs obtain i where
    fi: "findIndex (\<lambda>t. tok_id t = tid) (temporaryTokens seller) = Some i" and
    ts: "temporaryTokens s' =
           (if rounded rnd (tokensRemaining (temporaryTokens seller ! i) - tokensReceived reply) \<le> 0
            then filter (\<lambda>t. tok_id t \<noteq> tid)
               ((temporaryTokens seller)
                  [i := (temporaryTokens seller ! i)
                     \<lparr>tokensRemaining :=
                        rounded rnd (tokensRemaining (temporaryTokens seller ! i) - tokensReceived reply)\<rparr>])
            else (temporaryTokens seller)
                  [i := (temporaryTokens seller ! i)
                     \<lparr>tokensRemaining :=
                        rounded rnd (tokensRemaining (temporaryTokens seller ! i) - tokensReceived reply)\<rparr>])"
    by (elim exE conjE) simp
  have tok: "temporaryTokens seller ! i = token"
    using findIndex_find [OF fi] ft by simp
  have nf: "find (\<lambda>t. tok_id t = tid) (filter (\<lambda>t. tok_id t \<noteq> tid) xs) = None"
    for xs :: "TempToken list"
    by (simp add: find_None_iff)
  show ?thesis
  proof (cases "rounded rnd (tokensRemaining token - tokensReceived reply) \<le> 0")
    case True
    with ts tok f1 show ?thesis by (simp add: nf)
  next
    case False
    with ts tok f1
      find_update_same_id [OF fi, of "rounded rnd (tokensRemaining token - tokensReceived reply)"]
    show ?thesis by simp
  qed
qed

text \<open>Claim C5. Every failing purchase leaves the store as it was. A request that has
  passed the earlier checks of the handler (well-formed input, buyer present with a balance
  covering the requested amount) fails with \<open>NotFound\<close> for an absent seller or bundle, with
  \<open>InvalidAmount\<close> when the token count the handler computes,
  \<open>\<lfloor>amountReq / pricePerToken\<rfloor>\<close> with the quotient rounded by \<open>rnd\<close>, is not positive, and with
  \<open>InsufficientSupply\<close> when that count exceeds the bundle's remaining supply; an absent
  buyer is \<open>NotFound\<close>. In particular, repeating a successful purchase against the bundle,
  still listed but now holding fewer tokens than the request needs, fails with
  \<open>InsufficientSupply\<close> and leaves the store, with the balances of the first purchase,
  untouched.\<close>

theorem failed_purchase_unchanged:
  "(fst (buy_tokens rnd d userId sellerIdReq tokenId amountReq freshId) = Inl e \<longrightarrow>
      snd (buy_tokens rnd d userId sellerIdReq tokenId amountReq freshId) = d)
   \<and> (sellerIdReq \<noteq> [] \<and> tokenId \<noteq> [] \<and> 0 < amountReq \<and> findById d userId = None \<longrightarrow>
        buy_tokens rnd d userId sellerIdReq tokenId amountReq freshId = (Inl (NotFound Buyer), d))
   \<and> (sellerIdReq \<noteq> [] \<and> tokenId \<noteq> [] \<and> 0 < amountReq \<and>
        findById d userId = Some buyer \<and> amountReq \<le> amount buyer \<and>
        findById d sellerIdReq = None \<longrightarrow>
        buy_tokens rnd d userId sellerIdReq tokenId amountReq freshId = (Inl (NotFound Seller), d))
   \<and> (sellerIdReq \<noteq> [] \<and> tokenId \<noteq> [] \<and> 0 < amountReq \<and>
        findById d userId = Some buyer \<and> amountReq \<le> amount buyer \<and>
        findById d sellerIdReq = Some seller \<and>
        find (\<lambda>t. tok_id t = tokenId) (temporaryTokens seller) = None \<longrightarrow>
        buy_tokens rnd d userId sellerIdReq tokenId amountReq freshId = (Inl (NotFound Token), d))
   \<and> (sellerIdReq \<noteq> [] \<and> tokenId \<noteq> [] \<and> 0 < amountReq \<and>
        findById d userId = Some buyer \<and> amountReq \<le> amount buyer \<and>
        findById d sellerIdReq = Some seller \<and>
        find (\<lambda>t. tok_id t = tokenId) (temporaryTokens seller) = Some token \<and>
        pricePerToken token \<noteq> 0 \<and> \<lfloor>rnd (amountReq / pricePerToken token)\<rfloor> \<le> 0 \<longrightarrow>
        buy_tokens rnd d userId sellerIdReq tokenId amountReq freshId = (Inl InvalidAmount, d))
   \<and> (sellerIdReq \<noteq> [] \<and> tokenId \<noteq> [] \<and> 0 < amountReq \<and>
        findById d userId = Some buyer \<and> amountReq \<le> amount buyer \<and>
        findById d sellerIdReq = Some seller \<and>
        find (\<lambda>t. tok_id t = tokenId) (temporaryTokens seller) = Some token \<and>
        pricePerToken token \<noteq> 0 \<and> 0 < \<lfloor>rnd (amountReq / pricePerToken token)\<rfloor> \<and>
        tokensRemaining token < \<lfloor>rnd (amountReq / pricePerToken token)\<rfloor> \<longrightarrow>
        buy_tokens rnd d userId sellerIdReq tokenId amountReq freshId = (Inl InsufficientSupply, d))
   \<and> (buy_tokens rnd d userId sellerIdReq tokenId amountReq freshId = (Inr reply1, d1) \<and>
        findById d1 userId = Some buyer1 \<and> amountReq \<le> amount buyer1 \<and>
        findById d1 sellerIdReq = Some seller1 \<and>
        find (\<lambda>t. tok_id t = tokenId) (temporaryTokens seller1) = Some token1 \<and>
        tokensRemaining token1 < tokensReceived reply1 \<longrightarrow>
        buy_tokens rnd d1 userId sellerIdReq tokenId amountReq freshId2 = (Inl InsufficientSupply, d1))"
proof (intro conjI impI)
  assume "fst (buy_tokens rnd d userId sellerIdReq tokenId amountReq freshId) = Inl e"
  then show "snd (buy_tokens rnd d userId sellerIdReq tokenId amountReq freshId) = d"
    unfolding buy_tokens_def by (auto split: sum.splits prod.splits)
next
  assume "sellerIdReq \<noteq> [] \<and> tokenId \<noteq> [] \<and> 0 < amountReq \<and> findById d userId = None"
  then show "buy_tokens rnd d userId sellerIdReq tokenId amountReq freshId = (Inl (NotFound Buyer), d)"
    unfolding buy_tokens_def purchase_def by simp
next
  assume "sellerIdReq \<noteq> [] \<and> tokenId \<noteq> [] \<and> 0 < amountReq \<and>
        findById d userId = Some buyer \<and> amountReq \<le> amount buyer \<and>
        findById d sellerIdReq = None"
  then show "buy_tokens rnd d userId sellerIdReq tokenId amountReq freshId = (Inl (NotFound Seller), d)"
    unfolding buy_tokens_def purchase_def by simp
next
  assume h: "sellerIdReq \<noteq> [] \<and> tokenId \<noteq> [] \<and> 0 < amountReq \<and>
        findById d userId = Some buyer \<and> amountReq \<le> amount buyer \<and>
        findById d sellerIdReq = Some seller \<and>
        find (\<lambda>t. tok_id t = tokenId) (temporaryTokens seller) = None"
  then have "findIndex (\<lambda>t. tok_id t = tokenId) (temporaryTokens seller) = None"
    by (simp add: findIndex_None find_None_iff)
  with h show "buy_tokens rnd d userId sellerIdReq tokenId amountReq freshId = (Inl (NotFound Token), d)"
    unfolding buy_tokens_def purchase_def by simp
next
  assume h: "sellerIdReq \<noteq> [] \<and> tokenId \<noteq> [] \<and> 0 < amountReq \<and>
        findById d userId = Some buyer \<and> amountReq \<le> amount buyer \<and>
        findById d sellerIdReq = Some seller \<and>
        find (\<lambda>t. tok_id t = tokenId) (temporaryTokens seller) = Some token \<and>
        pricePerToken token \<noteq> 0 \<and> \<lfloor>rnd (amountReq / pricePerToken token)\<rfloor> \<le> 0"
  then have "purchase rnd d userId sellerIdReq tokenId amountReq freshId = Inl InvalidAmount"
    by (intro purchase_Inl_amount [where buyer = buyer and seller = seller and token = token]) simp_all
  then show "buy_tokens rnd d userId sellerIdReq tokenId amountReq freshId = (Inl InvalidAmount, d)"
    by (rule buy_tokens_Inl)
next
  assume h: "sellerIdReq \<noteq> [] \<and> tokenId \<noteq> [] \<and> 0 < amountReq \<and>
        findById d userId = Some buyer \<and> amountReq \<le> amount buyer \<and>
        findById d sellerIdReq = Some seller \<and>
        find (\<lambda>t. tok_id t = tokenId) (temporaryTokens seller) = Some token \<and>
        pricePerToken token \<noteq> 0 \<and> 0 < \<lfloor>rnd (amountReq / pricePerToken token)\<rfloor> \<and>
        tokensRemaining token < \<lfloor>rnd (amountReq / pricePerToken token)\<rfloor>"
  then have "purchase rnd d userId sellerIdReq tokenId amountReq freshId = Inl InsufficientSupply"
    by (intro purchase_Inl_supply [where buyer = buyer and seller = seller and token = token]) simp_all
  then show "buy_tokens rnd d userId sellerIdReq tokenId amountReq freshId = (Inl InsufficientSupply, d)"
    by (rule buy_tokens_Inl)
next
  assume h: "buy_tokens rnd d userId sellerIdReq tokenId amountReq freshId = (Inr reply1, d1) \<and>
        findById d1 userId = Some buyer1 \<and> amountReq \<le> amount buyer1 \<and>
        findById d1 sellerIdReq = Some seller1 \<and>
        find (\<lambda>t. tok_id t = tokenId) (temporaryTokens seller1) = Some token1 \<and>
        tokensRemaining token1 < tokensReceived reply1"
  then have ok: "buy_tokens rnd d userId sellerIdReq tokenId amountReq freshId = (Inr reply1, d1)"
    by simp
  from buy_tokens_Inr [OF ok] obtain b' s' where
    p: "purchase rnd d userId sellerIdReq tokenId amountReq freshId = Inr (reply1, b', s')" and
    d1: "d1 = save s' (save b' d)" by blast
  from purchase_Inr [OF p] obtain seller i where
    fs: "findById d sellerIdReq = Some seller" and
    fi: "findIndex (\<lambda>t. tok_id t = tokenId) (temporaryTokens seller) = Some i" and
    ne: "sellerIdReq \<noteq> []" "tokenId \<noteq> []" "0 < amountReq" and
    pr: "pricePerToken (temporaryTokens seller ! i) \<noteq> 0" and
    n: "0 < \<lfloor>rnd (amountReq / pricePerToken (temporaryTokens seller ! i))\<rfloor>" and
    tr: "tokensReceived reply1 = \<lfloor>rnd (amountReq / pricePerToken (temporaryTokens seller ! i))\<rfloor>"
    by (elim exE conjE) simp
  have s1: "seller1 = s'"
    using purchase_stored(1) [OF p] h unfolding d1 by simp
  have "token1 = (temporaryTokens seller ! i)
          \<lparr>tokensRemaining :=
             rounded rnd (tokensRemaining (temporaryTokens seller ! i) - tokensReceived reply1)\<rparr>"
    using h unfolding s1
    by (intro purchase_seller_bundle [OF p fs findIndex_find [OF fi]]) simp
  then have price: "pricePerToken token1 = pricePerToken (temporaryTokens seller ! i)" by simp
  have "purchase rnd d1 userId sellerIdReq tokenId amountReq freshId2 = Inl InsufficientSupply"
    using h ne pr n tr unfolding price [symmetric]
    by (intro purchase_Inl_supply [where buyer = buyer1 and seller = seller1 and token = token1])
       simp_all
  then show "buy_tokens rnd d1 userId sellerIdReq tokenId amountReq freshId2 = (Inl InsufficientSupply, d1)"
    by (rule buy_tokens_Inl)
qed

lemma purchase_buyer_tokens:
  assumes p: "purchase rnd d userId sid tid a fid = Inr (reply, b', s')"
    and fb: "findById d userId = Some buyer"
    and fs: "findById d sid = Some seller"
    and ft: "find (\<lambda>t. tok_id t = tid) (temporaryTokens seller) = Some token"
  shows "temporaryTokens b' =
           (case findIndex (\<lambda>t. name t = name token \<and> sellerId t = sid) (temporaryTokens buyer) of
              Some j \<Rightarrow> (temporaryTokens buyer)
                 [j := (temporaryTokens buyer ! j)
                    \<lparr>tokensRemaining :=
                       rounded rnd (tokensRemaining (temporaryTokens buyer ! j) + tokensReceived reply)\<rparr>]
            | None \<Rightarrow> temporaryTokens buyer @
                 [\<lparr>tok_id = fid, name = name token, apiKey = apiKey token, apiKeyName = None,
                   tokensRemaining = tokensReceived reply, expiresAt = expiresAt token,
                   pricePerToken = pricePerToken token, sellerId = sid,
                   originalApiKeyId = originalApiKeyId token\<rparr>])"
proof -
  from purchase_Inr [OF p] obtain buyer0 seller0 i where
    f0: "findById d userId = Some buyer0" "findById d sid = Some seller0" and
    fi0: "findIndex (\<lambda>t. tok_id t = tid) (temporaryTokens seller0) = Some i" and
    tb0: "temporaryTokens b' =
                 (case findIndex (\<lambda>t. name t = name (temporaryTokens seller0 ! i) \<and> sellerId t = sid)
                        (temporaryTokens buyer0) of
                    Some j \<Rightarrow> (temporaryTokens buyer0)
                       [j := (temporaryTokens buyer0 ! j)
                          \<lparr>tokensRemaining :=
                             rounded rnd (tokensRemaining (temporaryTokens buyer0 ! j) + tokensReceived reply)\<rparr>]
                  | None \<Rightarrow> temporaryTokens buyer0 @
                       [\<lparr>tok_id = fid, name = name (temporaryTokens seller0 ! i),
                         apiKey = apiKey (temporaryTokens seller0 ! i), apiKeyName = None,
                         tokensRemaining = tokensReceived reply,
                         expiresAt = expiresAt (temporaryTokens seller0 ! i),
                         pricePerToken = pricePerToken (temporaryTokens seller0 ! i),
                         sellerId = user_id seller0,
                         originalApiKeyId = originalApiKeyId (temporaryTokens seller0 ! i)\<rparr>])"
    by (elim exE conjE) simp
  have same: "buyer0 = buyer" "seller0 = seller"
    using f0 fb fs by simp_all
  note fi = fi0 [unfolded same] and tb = tb0 [unfolded same]
  have tok: "temporaryTokens seller ! i = token"
    using findIndex_find [OF fi] ft by simp
  show ?thesis
    using tb unfolding tok findById_id [OF fs] .
qed

text \<open>Claim C6, as the code has it. Two successful purchases by one buyer from one seller
  (two accounts), against bundles of the same name, accumulate into a single buyer-side
  bundle: when the buyer holds no bundle with that name and seller before, the first
  purchase appends a new bundle that carries the seller bundle's name, credential, expiry,
  price, the seller's id and the original key reference, and the second purchase adds its
  tokens to that same bundle, which then holds the sum of the two transfers as the
  arithmetic computes it: the rounded sum, which in doubles is the sum itself as long as it
  is below \<open>2 ^ 53\<close>.\<close>

theorem purchases_merge:
  assumes two_accounts: "userId \<noteq> sellerIdReq"
    and first: "buy_tokens rnd d userId sellerIdReq tokenA amountA freshA = (Inr reply1, d1)"
    and second: "buy_tokens rnd d1 userId sellerIdReq tokenB amountB freshB = (Inr reply2, d2)"
    and buyer: "findById d userId = Some buyer"
    and seller: "findById d sellerIdReq = Some seller"
    and bundleA: "find (\<lambda>t. tok_id t = tokenA) (temporaryTokens seller) = Some bundleA"
    and seller1: "findById d1 sellerIdReq = Some seller1"
    and bundleB: "find (\<lambda>t. tok_id t = tokenB) (temporaryTokens seller1) = Some bundleB"
    and same_name: "name bundleB = name bundleA"
    and none_yet: "\<forall>t\<in>set (temporaryTokens buyer). \<not> (name t = name bundleA \<and> sellerId t = sellerIdReq)"
  shows "\<exists>buyer1 buyer2.
     findById d1 userId = Some buyer1 \<and> findById d2 userId = Some buyer2 \<and>
     temporaryTokens buyer1 = temporaryTokens buyer @
       [\<lparr>tok_id = freshA, name = name bundleA, apiKey = apiKey bundleA, apiKeyName = None,
         tokensRemaining = tokensReceived reply1, expiresAt = expiresAt bundleA,
         pricePerToken = pricePerToken bundleA, sellerId = sellerIdReq,
         originalApiKeyId = originalApiKeyId bundleA\<rparr>] \<and>
     temporaryTokens buyer2 = temporaryTokens buyer @
       [\<lparr>tok_id = freshA, name = name bundleA, apiKey = apiKey bundleA, apiKeyName = None,
         tokensRemaining = rounded rnd (tokensReceived reply1 + tokensReceived reply2),
         expiresAt = expiresAt bundleA,
         pricePerToken = pricePerToken bundleA, sellerId = sellerIdReq,
         originalApiKeyId = originalApiKeyId bundleA\<rparr>] \<and>
     0 < tokensReceived reply1 \<and> 0 < tokensReceived reply2 \<and>
     (rnd = round_double \<and> tokensReceived reply1 + tokensReceived reply2 < 2 ^ 53 \<longrightarrow>
        rounded rnd (tokensReceived reply1 + tokensReceived reply2) =
          tokensReceived reply1 + tokensReceived reply2) \<and>
     (rnd = (\<lambda>x. x) \<longrightarrow>
        rounded rnd (tokensReceived reply1 + tokensReceived reply2) =
          tokensReceived reply1 + tokensReceived reply2)"
proof -
  define new where "new = \<lparr>tok_id = freshA, name = name bundleA, apiKey = apiKey bundleA,
         apiKeyName = None, tokensRemaining = tokensReceived reply1, expiresAt = expiresAt bundleA,
         pricePerToken = pricePerToken bundleA, sellerId = sellerIdReq,
         originalApiKeyId = originalApiKeyId bundleA\<rparr>"
  from buy_tokens_Inr [OF first] obtain b1 s1 where
    p1: "purchase rnd d userId sellerIdReq tokenA amountA freshA = Inr (reply1, b1, s1)" and
    d1: "d1 = save s1 (save b1 d)" by blast
  have none: "findIndex (\<lambda>t. name t = name bundleA \<and> sellerId t = sellerIdReq) (temporaryTokens buyer) = None"
    using none_yet by (simp add: findIndex_None)
  have t1: "temporaryTokens b1 = temporaryTokens buyer @ [new]"
    using purchase_buyer_tokens [OF p1 buyer seller bundleA] unfolding none new_def by simp
  have f1: "findById d1 userId = Some b1"
    unfolding d1 by (rule purchase_stored(2) [OF p1 two_accounts])
  from buy_tokens_Inr [OF second] obtain b2 s2 where
    p2: "purchase rnd d1 userId sellerIdReq tokenB amountB freshB = Inr (reply2, b2, s2)" and
    d2: "d2 = save s2 (save b2 d1)" by blast
  have found: "findIndex (\<lambda>t. name t = name bundleB \<and> sellerId t = sellerIdReq) (temporaryTokens b1)
      = Some (length (temporaryTokens buyer))"
    unfolding t1 same_name
    by (rule findIndex_append_new [OF none]) (simp add: new_def)
  have t2: "temporaryTokens b2 = temporaryTokens buyer @
      [new\<lparr>tokensRemaining := rounded rnd (tokensReceived reply1 + tokensReceived reply2)\<rparr>]"
    using purchase_buyer_tokens [OF p2 f1 seller1 bundleB] unfolding found
    by (simp add: t1 new_def)
  have f2: "findById d2 userId = Some b2"
    unfolding d2 by (rule purchase_stored(2) [OF p2 two_accounts])
  have pos: "0 < tokensReceived reply1" "0 < tokensReceived reply2"
    using purchase_Inr [OF p1] purchase_Inr [OF p2] by auto
  have dbl: "rnd = round_double \<and> tokensReceived reply1 + tokensReceived reply2 < 2 ^ 53 \<longrightarrow>
        rounded rnd (tokensReceived reply1 + tokensReceived reply2) =
          tokensReceived reply1 + tokensReceived reply2"
    using pos by (auto intro: rounded_exact)
  have ex: "rnd = (\<lambda>x. x) \<longrightarrow>
        rounded rnd (tokensReceived reply1 + tokensReceived reply2) =
          tokensReceived reply1 + tokensReceived reply2"
    by simp
  from f1 f2 t1 t2 pos dbl ex show ?thesis unfolding new_def by simp
qed

subsection \<open>The purchase claims on the scenario\<close>

lemma first_purchase':
  "buy_tokens (\<lambda>x. x) store0 ''alice'' ''bob'' ''t1'' (16 / 5) ''n1'' = (Inr first_reply, store1)"
  unfolding first_reply_def by (rule first_purchase)

text \<open>More of the scenario in double arithmetic.\<close>

lemma second_purchase_double:
  "buy_tokens round_double store1 ''alice'' ''bob'' ''t1'' 1 ''n2'' =
     (Inr \<lparr>tokensReceived = 2, amountSpent = 1, remainingBalance = 6, purchasedToken = bought 8\<rparr>,
      [alice\<lparr>amount := 6, temporaryTokens := [bought 8]\<rparr>,
       bob\<lparr>amount := 4, temporaryTokens := [listing\<lparr>tokensRemaining := 2\<rparr>]\<rparr>])"
  by (simp add: buy_tokens_def purchase_def findById_def save_def scenario_defs Let_def
      double_whole)

lemma whole_purchase_double:
  "buy_tokens round_double store0 ''alice'' ''bob'' ''t1'' 5 ''n1'' =
     (Inr \<lparr>tokensReceived = 10, amountSpent = 5, remainingBalance = 5, purchasedToken = bought 10\<rparr>,
      store_full)"
  by (simp add: buy_tokens_def purchase_def findById_def save_def scenario_defs store_full_def
      Let_def double_whole)

text \<open>Buying all ten tokens removes the listing; asking for twelve fails.\<close>

theorem purchase_supply_witness:
  "buy_tokens round_double store0 ''alice'' ''bob'' ''t1'' 5 ''n1'' =
     (Inr \<lparr>tokensReceived = 10, amountSpent = 5, remainingBalance = 5, purchasedToken = bought 10\<rparr>,
      store_full)
   \<and> tokensRemaining listing = 10
   \<and> (0 :: int) \<le> rounded round_double (10 - 10)
   \<and> (\<exists>seller'. findById store_full ''bob'' = Some seller'
         \<and> (\<forall>t\<in>set (temporaryTokens seller'). tok_id t \<noteq> ''t1''))
   \<and> buy_tokens round_double store0 ''alice'' ''bob'' ''t1'' 6 ''n1'' = (Inl InsufficientSupply, store0)"
proof -
  have tok: "findById store0 ''bob'' = Some bob"
      "find (\<lambda>t. tok_id t = ''t1'') (temporaryTokens bob) = Some listing"
      "tokensRemaining listing = 10"
    by (simp_all add: findById_def scenario_defs)
  have sign: "\<forall>x. 0 \<le> x \<longrightarrow> 0 \<le> round_double x"
    by (simp add: round_double_nonneg)
  from purchase_supply [where rnd = round_double, THEN conjunct1, rule_format, OF whole_purchase_double]
    tok sign
  have a: "(0 :: int) \<le> rounded round_double (10 - 10) \<and>
      (\<exists>seller'. findById store_full ''bob'' = Some seller'
         \<and> (\<forall>t\<in>set (temporaryTokens seller'). tok_id t \<noteq> ''t1''))"
    by (elim exE conjE) (auto simp: double_whole)
  have h: "''bob'' \<noteq> [] \<and> ''t1'' \<noteq> [] \<and> 0 < (6::rat) \<and>
        findById store0 ''alice'' = Some alice \<and> 6 \<le> amount alice \<and>
        findById store0 ''bob'' = Some bob \<and>
        find (\<lambda>t. tok_id t = ''t1'') (temporaryTokens bob) = Some listing \<and>
        pricePerToken listing \<noteq> 0 \<and> 0 \<le> tokensRemaining listing \<and>
        tokensRemaining listing < \<lfloor>round_double (6 / pricePerToken listing)\<rfloor>"
    by (simp add: findById_def scenario_defs double_whole)
  from purchase_supply [where rnd = round_double, THEN conjunct2, rule_format, OF h]
  have b: "buy_tokens round_double store0 ''alice'' ''bob'' ''t1'' 6 ''n1'' = (Inl InsufficientSupply, store0)" .
  from whole_purchase_double tok(3) a b show ?thesis by blast
qed

text \<open>The same purchase tried a second time, a purchase too small for one token, and
  purchases naming an absent bundle, seller and buyer.\<close>

theorem failed_purchase_unchanged_witness:
  "buy_tokens (\<lambda>x. x) store0 ''alice'' ''bob'' ''t1'' (16 / 5) ''n1'' = (Inr first_reply, store1)
   \<and> buy_tokens (\<lambda>x. x) store1 ''alice'' ''bob'' ''t1'' (16 / 5) ''n2'' = (Inl InsufficientSupply, store1)
   \<and> buy_tokens (\<lambda>x. x) store0 ''alice'' ''bob'' ''t1'' (1 / 4) ''n1'' = (Inl InvalidAmount, store0)
   \<and> buy_tokens (\<lambda>x. x) store0 ''alice'' ''bob'' ''t9'' 1 ''n1'' = (Inl (NotFound Token), store0)
   \<and> buy_tokens (\<lambda>x. x) store0 ''alice'' ''zed'' ''t1'' 1 ''n1'' = (Inl (NotFound Seller), store0)
   \<and> buy_tokens (\<lambda>x. x) store0 ''zed'' ''bob'' ''t1'' 1 ''n1'' = (Inl (NotFound Buyer), store0)
   \<and> snd (buy_tokens (\<lambda>x. x) store0 ''zed'' ''bob'' ''t1'' 1 ''n1'') = store0"
proof -
  note main = failed_purchase_unchanged [where rnd = "\<lambda>x. x"]
  have h7: "buy_tokens (\<lambda>x. x) store0 ''alice'' ''bob'' ''t1'' (16 / 5) ''n1'' = (Inr first_reply, store1) \<and>
        findById store1 ''alice'' = Some (alice\<lparr>amount := 7, temporaryTokens := [bought 6]\<rparr>) \<and>
        16 / 5 \<le> amount (alice\<lparr>amount := 7, temporaryTokens := [bought 6]\<rparr>) \<and>
        findById store1 ''bob'' =
          Some (bob\<lparr>amount := 3, temporaryTokens := [listing\<lparr>tokensRemaining := 4\<rparr>]\<rparr>) \<and>
        find (\<lambda>t. tok_id t = ''t1'')
          (temporaryTokens (bob\<lparr>amount := 3, temporaryTokens := [listing\<lparr>tokensRemaining := 4\<rparr>]\<rparr>))
          = Some (listing\<lparr>tokensRemaining := 4\<rparr>) \<and>
        tokensRemaining (listing\<lparr>tokensRemaining := 4\<rparr>) < tokensReceived first_reply"
    using first_purchase' by (simp add: findById_def scenario_defs first_reply_def)
  have c7: "buy_tokens (\<lambda>x. x) store1 ''alice'' ''bob'' ''t1'' (16 / 5) ''n2'' = (Inl InsufficientSupply, store1)"
    by (rule main [THEN conjunct2, THEN conjunct2, THEN conjunct2, THEN conjunct2,
          THEN conjunct2, THEN conjunct2, rule_format, OF h7])
  have h5: "''bob'' \<noteq> [] \<and> ''t1'' \<noteq> [] \<and> 0 < (1 / 4 :: rat) \<and>
        findById store0 ''alice'' = Some alice \<and> 1 / 4 \<le> amount alice \<and>
        findById store0 ''bob'' = Some bob \<and>
        find (\<lambda>t. tok_id t = ''t1'') (temporaryTokens bob) = Some listing \<and>
        pricePerToken listing \<noteq> 0 \<and> \<lfloor>(1 / 4) / pricePerToken listing\<rfloor> \<le> 0"
    by (simp add: findById_def scenario_defs floor_rat_numeral)
  have c5: "buy_tokens (\<lambda>x. x) store0 ''alice'' ''bob'' ''t1'' (1 / 4) ''n1'' = (Inl InvalidAmount, store0)"
    by (rule main [THEN conjunct2, THEN conjunct2, THEN conjunct2, THEN conjunct2,
          THEN conjunct1, rule_format, OF h5])
  have h4: "''bob'' \<noteq> [] \<and> ''t9'' \<noteq> [] \<and> 0 < (1 :: rat) \<and>
        findById store0 ''alice'' = Some alice \<and> 1 \<le> amount alice \<and>
        findById store0 ''bob'' = Some bob \<and>
        find (\<lambda>t. tok_id t = ''t9'') (temporaryTokens bob) = None"
    by (simp add: findById_def scenario_defs)
  have c4: "buy_tokens (\<lambda>x. x) store0 ''alice'' ''bob'' ''t9'' 1 ''n1'' = (Inl (NotFound Token), store0)"
    by (rule main [THEN conjunct2, THEN conjunct2, THEN conjunct2, THEN conjunct1,
          rule_format, OF h4])
  have h3: "''zed'' \<noteq> [] \<and> ''t1'' \<noteq> [] \<and> 0 < (1 :: rat) \<and>
        findById store0 ''alice'' = Some alice \<and> 1 \<le> amount alice \<and>
        findById store0 ''zed'' = None"
    by (simp add: findById_def scenario_defs)
  have c3: "buy_tokens (\<lambda>x. x) store0 ''alice'' ''zed'' ''t1'' 1 ''n1'' = (Inl (NotFound Seller), store0)"
    by (rule main [THEN conjunct2, THEN conjunct2, THEN conjunct1, rule_format, OF h3])
  have h2: "''bob'' \<noteq> [] \<and> ''t1'' \<noteq> [] \<and> 0 < (1 :: rat) \<and> findById store0 ''zed'' = None"
    by (simp add: findById_def scenario_defs)
  have c2: "buy_tokens (\<lambda>x. x) store0 ''zed'' ''bob'' ''t1'' 1 ''n1'' = (Inl (NotFound Buyer), store0)"
    by (rule main [THEN conjunct2, THEN conjunct1, rule_format, OF h2])
  have h1: "fst (buy_tokens (\<lambda>x. x) store0 ''zed'' ''bob'' ''t1'' 1 ''n1'') = Inl (NotFound Buyer)"
    using c2 by simp
  have c1: "snd (buy_tokens (\<lambda>x. x) store0 ''zed'' ''bob'' ''t1'' 1 ''n1'') = store0"
    by (rule main [THEN conjunct1, rule_format, OF h1])
  from first_purchase' c7 c5 c4 c3 c2 c1 show ?thesis by blast
qed

text \<open>In double arithmetic: six tokens, then two more from the same listing, make one bundle
  of eight.\<close>

theorem purchases_merge_witness:
  "buy_tokens round_double store0 ''alice'' ''bob'' ''t1'' 3 ''n1'' = (Inr first_reply, store1)
   \<and> buy_tokens round_double store1 ''alice'' ''bob'' ''t1'' 1 ''n2'' =
     (Inr \<lparr>tokensReceived = 2, amountSpent = 1, remainingBalance = 6, purchasedToken = bought 8\<rparr>,
      [alice\<lparr>amount := 6, temporaryTokens := [bought 8]\<rparr>,
       bob\<lparr>amount := 4, temporaryTokens := [listing\<lparr>tokensRemaining := 2\<rparr>]\<rparr>])
   \<and> (\<exists>buyer2. findById [alice\<lparr>amount := 6, temporaryTokens := [bought 8]\<rparr>,
       bob\<lparr>amount := 4, temporaryTokens := [listing\<lparr>tokensRemaining := 2\<rparr>]\<rparr>] ''alice'' = Some buyer2
        \<and> map tokensRemaining (temporaryTokens buyer2) = [6 + 2]
        \<and> map sellerId (temporaryTokens buyer2) = [''bob'']
        \<and> map originalApiKeyId (temporaryTokens buyer2) = [''k1''])"
proof -
  have ne: "''alice'' \<noteq> ''bob''" by simp
  have f: "findById store0 ''alice'' = Some alice" "findById store0 ''bob'' = Some bob"
      "find (\<lambda>t. tok_id t = ''t1'') (temporaryTokens bob) = Some listing"
      "findById store1 ''bob'' =
          Some (bob\<lparr>amount := 3, temporaryTokens := [listing\<lparr>tokensRemaining := 4\<rparr>]\<rparr>)"
      "find (\<lambda>t. tok_id t = ''t1'')
          (temporaryTokens (bob\<lparr>amount := 3, temporaryTokens := [listing\<lparr>tokensRemaining := 4\<rparr>]\<rparr>))
          = Some (listing\<lparr>tokensRemaining := 4\<rparr>)"
      "name (listing\<lparr>tokensRemaining := 4\<rparr>) = name listing"
      "\<forall>t\<in>set (temporaryTokens alice). \<not> (name t = name listing \<and> sellerId t = ''bob'')"
    by (simp_all add: findById_def scenario_defs)
  have small: "tokensReceived first_reply + 2 < (2 :: int) ^ 53"
    by (simp add: first_reply_def)
  from purchases_merge [OF ne first_purchase_double second_purchase_double f] small
  have "\<exists>buyer2. findById [alice\<lparr>amount := 6, temporaryTokens := [bought 8]\<rparr>,
       bob\<lparr>amount := 4, temporaryTokens := [listing\<lparr>tokensRemaining := 2\<rparr>]\<rparr>] ''alice'' = Some buyer2
        \<and> map tokensRemaining (temporaryTokens buyer2) = [6 + 2]
        \<and> map sellerId (temporaryTokens buyer2) = [''bob'']
        \<and> map originalApiKeyId (temporaryTokens buyer2) = [''k1'']"
    by (elim exE conjE) (simp add: scenario_defs first_reply_def)
  with first_purchase_double second_purchase_double show ?thesis by blast
qed

text \<open>In double arithmetic a bundle of \<open>2 ^ 53\<close> tokens that receives one more token holds
  \<open>2 ^ 53\<close>, not the sum.\<close>

lemma bulk_first:
  "buy_tokens round_double bulk_store ''alice'' ''bob'' ''t1'' 9007199254740992 ''n1'' =
     (Inr \<lparr>tokensReceived = 9007199254740992, amountSpent = 9007199254740992,
           remainingBalance = 9007199254740992,
           purchasedToken = bulk_bought 9007199254740992\<rparr>,
      bulk_store1)"
  by (simp add: buy_tokens_def purchase_def findById_def save_def bulk_store_def bulk_store1_def
      bulk_listing_def bulk_bought_def alice_def bob_def claude_key_def bought_def Let_def
      double_bulk double_whole)

lemma bulk_second:
  "buy_tokens round_double bulk_store1 ''alice'' ''bob'' ''t1'' 1 ''n2'' =
     (Inr \<lparr>tokensReceived = 1, amountSpent = 1, remainingBalance = 9007199254740991,
           purchasedToken = bulk_bought 9007199254740992\<rparr>,
      [alice\<lparr>amount := 9007199254740991, temporaryTokens := [bulk_bought 9007199254740992]\<rparr>,
       bob\<lparr>amount := 9007199254740992,
           temporaryTokens := [bulk_listing\<lparr>tokensRemaining := 9007199254740991\<rparr>]\<rparr>])"
  by (simp add: buy_tokens_def purchase_def findById_def save_def bulk_store1_def
      bulk_listing_def bulk_bought_def alice_def bob_def claude_key_def bought_def Let_def
      double_bulk double_whole)

theorem sum_of_purchases_rounded:
  "buy_tokens round_double bulk_store ''alice'' ''bob'' ''t1'' 9007199254740992 ''n1'' =
     (Inr \<lparr>tokensReceived = 9007199254740992, amountSpent = 9007199254740992,
           remainingBalance = 9007199254740992,
           purchasedToken = bulk_bought 9007199254740992\<rparr>,
      bulk_store1)
   \<and> buy_tokens round_double bulk_store1 ''alice'' ''bob'' ''t1'' 1 ''n2'' =
     (Inr \<lparr>tokensReceived = 1, amountSpent = 1, remainingBalance = 9007199254740991,
           purchasedToken = bulk_bought 9007199254740992\<rparr>,
      [alice\<lparr>amount := 9007199254740991, temporaryTokens := [bulk_bought 9007199254740992]\<rparr>,
       bob\<lparr>amount := 9007199254740992,
           temporaryTokens := [bulk_listing\<lparr>tokensRemaining := 9007199254740991\<rparr>]\<rparr>])
   \<and> tokensRemaining (bulk_bought 9007199254740992) = 2 ^ 53
   \<and> tokensRemaining (bulk_bought 9007199254740992) \<noteq> 9007199254740992 + 1"
  using bulk_first bulk_second by (simp add: bulk_bought_def bought_def)

section \<open>Token estimation\<close>

lemma ceiling_quarter: "\<lceil>(of_nat n :: rat) / 4\<rceil> = (int n + 3) div 4"
proof -
  have "(of_nat n :: rat) / 4 = of_int (int n) / of_int 4" by simp
  then have "\<lceil>(of_nat n :: rat) / 4\<rceil> = - (- int n div 4)"
    by (simp only: ceiling_divide_eq_div)
  also have "\<dots> = (int n + 3) div 4" by presburger
  finally show ?thesis .
qed

lemma estimated_completion:
  assumes "p = Anthropic \<or> p = Gemini"
    and "handleProviderRequest up p message modelId k = Inr r"
  shows "usage r = \<lparr>promptTokens = \<lceil>(of_nat (length message) :: rat) / 4\<rceil>,
                    completionTokens = \<lceil>(of_nat (length (text_out r)) :: rat) / 4\<rceil>,
                    totalTokens = \<lceil>(of_nat (length message) :: rat) / 4\<rceil>
                                + \<lceil>(of_nat (length (text_out r)) :: rat) / 4\<rceil>\<rparr>"
  using assms
  by (auto simp: handleAnthropicRequest_def handleGeminiRequest_def Let_def split: option.splits)

text \<open>Claim C3. For the two providers that do not report token counts, Anthropic and
  Gemini, the usage is computed from the lengths alone: \<open>promptTokens\<close> is the message length
  divided by 4 and rounded up, \<open>completionTokens\<close> the same of the response text, and
  \<open>totalTokens\<close> their sum. A message of 17 characters with a response of 9 gives 5, 3
  and 8.\<close>

theorem estimated_usage:
  "(anthropic_create up k modelId message = Some t \<longrightarrow>
      handleProviderRequest up Anthropic message modelId k =
        Inr \<lparr>text_out = t,
             usage = \<lparr>promptTokens = (int (length message) + 3) div 4,
                      completionTokens = (int (length t) + 3) div 4,
                      totalTokens = (int (length message) + 3) div 4 + (int (length t) + 3) div 4\<rparr>\<rparr>)
   \<and> (gemini_sendMessage up k modelId message = Some t \<longrightarrow>
      handleProviderRequest up Gemini message modelId k =
        Inr \<lparr>text_out = t,
             usage = \<lparr>promptTokens = (int (length message) + 3) div 4,
                      completionTokens = (int (length t) + 3) div 4,
                      totalTokens = (int (length message) + 3) div 4 + (int (length t) + 3) div 4\<rparr>\<rparr>)
   \<and> ((p = Anthropic \<or> p = Gemini) \<and> handleProviderRequest up p message modelId k = Inr r \<longrightarrow>
        promptTokens (usage r) = \<lceil>(of_nat (length message) :: rat) / 4\<rceil> \<and>
        completionTokens (usage r) = \<lceil>(of_nat (length (text_out r)) :: rat) / 4\<rceil> \<and>
        totalTokens (usage r) = promptTokens (usage r) + completionTokens (usage r) \<and>
        (length message = 17 \<and> length (text_out r) = 9 \<longrightarrow>
           promptTokens (usage r) = 5 \<and> completionTokens (usage r) = 3 \<and>
           totalTokens (usage r) = 8))"
proof (intro conjI impI)
  assume "anthropic_create up k modelId message = Some t"
  then show "handleProviderRequest up Anthropic message modelId k =
        Inr \<lparr>text_out = t,
             usage = \<lparr>promptTokens = (int (length message) + 3) div 4,
                      completionTokens = (int (length t) + 3) div 4,
                      totalTokens = (int (length message) + 3) div 4 + (int (length t) + 3) div 4\<rparr>\<rparr>"
    by (simp add: handleAnthropicRequest_def Let_def ceiling_quarter)
next
  assume "gemini_sendMessage up k modelId message = Some t"
  then show "handleProviderRequest up Gemini message modelId k =
        Inr \<lparr>text_out = t,
             usage = \<lparr>promptTokens = (int (length message) + 3) div 4,
                      completionTokens = (int (length t) + 3) div 4,
                      totalTokens = (int (length message) + 3) div 4 + (int (length t) + 3) div 4\<rparr>\<rparr>"
    by (simp add: handleGeminiRequest_def Let_def ceiling_quarter)
next
  assume h: "(p = Anthropic \<or> p = Gemini) \<and> handleProviderRequest up p message modelId k = Inr r"
  then have u: "usage r = \<lparr>promptTokens = \<lceil>(of_nat (length message) :: rat) / 4\<rceil>,
                    completionTokens = \<lceil>(of_nat (length (text_out r)) :: rat) / 4\<rceil>,
                    totalTokens = \<lceil>(of_nat (length message) :: rat) / 4\<rceil>
                                + \<lceil>(of_nat (length (text_out r)) :: rat) / 4\<rceil>\<rparr>"
    using estimated_completion [of p up message modelId k r] by simp
  show "promptTokens (usage r) = \<lceil>(of_nat (length message) :: rat) / 4\<rceil>"
    and "completionTokens (usage r) = \<lceil>(of_nat (length (text_out r)) :: rat) / 4\<rceil>"
    and "totalTokens (usage r) = promptTokens (usage r) + completionTokens (usage r)"
    unfolding u by simp_all
  {
    assume l: "length message = 17 \<and> length (text_out r) = 9"
    show "promptTokens (usage r) = 5" "completionTokens (usage r) = 3" "totalTokens (usage r) = 8"
      unfolding u ceiling_quarter using l by simp_all
  }
qed

text \<open>A question of 17 characters answered in 9.\<close>

theorem estimated_usage_witness:
  "handleProviderRequest (demo_upstream ''Hi there!'') Anthropic ''What is the time?'' ''claude-3-haiku-20240307'' ''sk-ant'' =
     Inr \<lparr>text_out = ''Hi there!'',
          usage = \<lparr>promptTokens = 5, completionTokens = 3, totalTokens = 8\<rparr>\<rparr>
   \<and> handleProviderRequest (demo_upstream ''Hi there!'') Gemini ''What is the time?'' ''gemini-1.5-pro'' ''g-key'' =
     Inr \<lparr>text_out = ''Hi there!'',
          usage = \<lparr>promptTokens = 5, completionTokens = 3, totalTokens = 8\<rparr>\<rparr>
   \<and> length ''What is the time?'' = 17 \<and> length ''Hi there!'' = 9"
proof -
  have a: "anthropic_create (demo_upstream ''Hi there!'') ''sk-ant'' ''claude-3-haiku-20240307'' ''What is the time?'' = Some ''Hi there!''"
    and g: "gemini_sendMessage (demo_upstream ''Hi there!'') ''g-key'' ''gemini-1.5-pro'' ''What is the time?'' = Some ''Hi there!''"
    by (simp_all add: demo_upstream_def)
  note r1 = estimated_usage [THEN conjunct1, rule_format, OF a]
  note r2 = estimated_usage [THEN conjunct2, THEN conjunct1, rule_format, OF g]
  have h: "(Gemini = Anthropic \<or> Gemini = Gemini) \<and>
      handleProviderRequest (demo_upstream ''Hi there!'') Gemini ''What is the time?'' ''gemini-1.5-pro'' ''g-key'' =
        Inr \<lparr>text_out = ''Hi there!'',
             usage = \<lparr>promptTokens = (int (length ''What is the time?'') + 3) div 4,
                      completionTokens = (int (length ''Hi there!'') + 3) div 4,
                      totalTokens = (int (length ''What is the time?'') + 3) div 4
                                  + (int (length ''Hi there!'') + 3) div 4\<rparr>\<rparr>"
    using r2 by simp
  note r3 = estimated_usage [THEN conjunct2, THEN conjunct2, rule_format, OF h]
  from r1 r2 r3 show ?thesis by simp
qed

section \<open>Chat\<close>

lemma chat_resolve_temp:
  assumes "message \<noteq> []" "keyId \<noteq> []" "modelId \<noteq> []"
    and "findById d userId = Some user"
    and "findIndex (\<lambda>k. tok_id k = keyId) (temporaryTokens user) = Some i"
    and "0 < tokensRemaining (temporaryTokens user ! i)"
    and "findById d (sellerId (temporaryTokens user ! i)) = Some seller"
    and "find (\<lambda>k. key_id k = originalApiKeyId (temporaryTokens user ! i)) (api_keys seller) = Some k"
    and "getProviderFromModel (or_else (apiKeyName (temporaryTokens user ! i)) (key_name k)) = Inr p"
  shows "chat_resolve up d userId message ''temp'' keyId modelId =
           Inr \<lparr>doc = user, source = TempSource i, provider_of = p,
                credential = decrypt up (key k)\<rparr>"
  using assms unfolding chat_resolve_def Let_def by simp

lemma chat_resolve_temp_Inr:
  assumes "chat_resolve up d userId message ''temp'' keyId modelId = Inr r"
  shows "\<exists>user i seller k.
     message \<noteq> [] \<and> keyId \<noteq> [] \<and> modelId \<noteq> [] \<and>
     findById d userId = Some user \<and>
     findIndex (\<lambda>k. tok_id k = keyId) (temporaryTokens user) = Some i \<and>
     0 < tokensRemaining (temporaryTokens user ! i) \<and>
     findById d (sellerId (temporaryTokens user ! i)) = Some seller \<and>
     find (\<lambda>k. key_id k = originalApiKeyId (temporaryTokens user ! i)) (api_keys seller) = Some k \<and>
     getProviderFromModel (or_else (apiKeyName (temporaryTokens user ! i)) (key_name k))
       = Inr (provider_of r) \<and>
     r = \<lparr>doc = user, source = TempSource i, provider_of = provider_of r,
          credential = decrypt up (key k)\<rparr>"
  using assms unfolding chat_resolve_def Let_def
  by (auto split: if_splits option.splits sum.splits)

lemma chat_resolve_user_Inr:
  assumes "chat_resolve up d userId message ''user'' keyId modelId = Inr r"
  shows "\<exists>user i.
     message \<noteq> [] \<and> keyId \<noteq> [] \<and> modelId \<noteq> [] \<and>
     findById d userId = Some user \<and>
     findIndex (\<lambda>k. key_id k = keyId) (api_keys user) = Some i \<and>
     getProviderFromModel (key_name (api_keys user ! i)) = Inr (provider_of r) \<and>
     r = \<lparr>doc = user, source = OwnedSource i, provider_of = provider_of r,
          credential = decrypt up (key (api_keys user ! i))\<rparr>"
  using assms unfolding chat_resolve_def Let_def
  by (auto split: if_splits option.splits sum.splits)

lemma chat_resolve_Inr_keyType:
  assumes "chat_resolve up d userId message keyType keyId modelId = Inr r"
  shows "keyType = ''temp'' \<or> keyType = ''user''"
  using assms unfolding chat_resolve_def Let_def
  by (auto split: if_splits option.splits sum.splits)

text \<open>Claim C8. A chat request, against an owned key or a purchased bundle, whose
  \<open>tokensUsed\<close> (the \<open>totalTokens\<close> of the provider's response) exceeds what the quota source
  holds fails with \<open>InsufficientTokens\<close> and performs no debit: the store, and with it the
  key's \<open>available\<close> or the bundle's \<open>tokensRemaining\<close>, is exactly as before.\<close>

theorem overdraft_rejected:
  "findById d userId = Some user \<and>
   chat_resolve up d userId message keyType keyId modelId = Inr r \<and>
   handleProviderRequest up (provider_of r) message modelId (credential r) = Inr resp \<and>
   ((keyType = ''temp'' \<and>
       find (\<lambda>k. tok_id k = keyId) (temporaryTokens user) = Some tempKey \<and>
       tokensRemaining tempKey < totalTokens (usage resp))
    \<or> (keyType = ''user'' \<and>
       find (\<lambda>k. key_id k = keyId) (api_keys user) = Some userKey \<and>
       available userKey < totalTokens (usage resp)))
   \<longrightarrow> chat rnd up d userId message keyType keyId modelId = (Inl InsufficientTokens, d)"
proof (intro impI, elim conjE)
  assume u: "findById d userId = Some user"
    and res: "chat_resolve up d userId message keyType keyId modelId = Inr r"
    and call: "handleProviderRequest up (provider_of r) message modelId (credential r) = Inr resp"
    and src: "(keyType = ''temp'' \<and>
       find (\<lambda>k. tok_id k = keyId) (temporaryTokens user) = Some tempKey \<and>
       tokensRemaining tempKey < totalTokens (usage resp))
    \<or> (keyType = ''user'' \<and>
       find (\<lambda>k. key_id k = keyId) (api_keys user) = Some userKey \<and>
       available userKey < totalTokens (usage resp))"
  have run: "chat rnd up d userId message keyType keyId modelId = chat_debit rnd r keyId resp d"
    unfolding chat_def chat_after_resolve_def res using call by simp
  from src show "chat rnd up d userId message keyType keyId modelId = (Inl InsufficientTokens, d)"
  proof (elim disjE conjE)
    assume kt: "keyType = ''temp''"
      and f: "find (\<lambda>k. tok_id k = keyId) (temporaryTokens user) = Some tempKey"
      and lt: "tokensRemaining tempKey < totalTokens (usage resp)"
    from chat_resolve_temp_Inr [OF res [unfolded kt]] u obtain i where
      fi: "findIndex (\<lambda>k. tok_id k = keyId) (temporaryTokens user) = Some i" and
      r: "doc r = user" "source r = TempSource i"
      by (elim exE conjE) (simp, metis resolved.select_convs(1,2))
    have "temporaryTokens user ! i = tempKey"
      using findIndex_find [OF fi] f by simp
    then show ?thesis
      unfolding run chat_debit_def Let_def r using lt by simp
  next
    assume kt: "keyType = ''user''"
      and f: "find (\<lambda>k. key_id k = keyId) (api_keys user) = Some userKey"
      and lt: "available userKey < totalTokens (usage resp)"
    from chat_resolve_user_Inr [OF res [unfolded kt]] u obtain i where
      fi: "findIndex (\<lambda>k. key_id k = keyId) (api_keys user) = Some i" and
      r: "doc r = user" "source r = OwnedSource i"
      by (elim exE conjE) (simp, metis resolved.select_convs(1,2))
    have "api_keys user ! i = userKey"
      using findIndex_find [OF fi] f by simp
    then show ?thesis
      unfolding run chat_debit_def Let_def r using lt by simp
  qed
qed

lemma ceiling_rat_numeral: "\<lceil>(numeral a :: rat) / numeral b\<rceil> = - (- numeral a div numeral b)"
  using ceiling_divide_eq_div [of "numeral a" "numeral b", where ?'a = rat] by simp

lemma provider_claude_key: "getProviderFromModel ''Work Claude key'' = Inr Anthropic"
  by code_simp

lemma resolve_alice1:
  "chat_resolve (demo_upstream ''Hi there!'') store1 ''alice'' ''What is the time?'' ''temp'' ''n1''
       ''claude-3-haiku-20240307'' =
     Inr \<lparr>doc = alice\<lparr>amount := 7, temporaryTokens := [bought 6]\<rparr>, source = TempSource 0,
          provider_of = Anthropic, credential = ''sk-ant''\<rparr>"
  by (simp add: chat_resolve_def findById_def scenario_defs Let_def or_else_def
      provider_claude_key demo_upstream_def)

lemma resolve_bob0:
  "chat_resolve (demo_upstream ''Hi there!'') store0 ''bob'' ''What is the time?'' ''user'' ''k1''
       ''claude-3-haiku-20240307'' =
     Inr \<lparr>doc = bob, source = OwnedSource 0, provider_of = Anthropic, credential = ''sk-ant''\<rparr>"
  by (simp add: chat_resolve_def findById_def scenario_defs Let_def
      provider_claude_key demo_upstream_def)

lemma call_hi:
  "handleProviderRequest (demo_upstream ''Hi there!'') Anthropic ''What is the time?''
       ''claude-3-haiku-20240307'' ''sk-ant'' =
     Inr \<lparr>text_out = ''Hi there!'',
          usage = \<lparr>promptTokens = 5, completionTokens = 3, totalTokens = 8\<rparr>\<rparr>"
  by (simp add: handleAnthropicRequest_def demo_upstream_def Let_def ceiling_rat_numeral)

text \<open>A request costing eight tokens against a bundle of six, and against an owned key
  with five available.\<close>

theorem overdraft_rejected_witness:
  "chat round_double (demo_upstream ''Hi there!'') store1 ''alice'' ''What is the time?'' ''temp''
       ''n1'' ''claude-3-haiku-20240307'' = (Inl InsufficientTokens, store1)
   \<and> chat round_double (demo_upstream ''Hi there!'') store0 ''bob'' ''What is the time?'' ''user''
       ''k1'' ''claude-3-haiku-20240307'' = (Inl InsufficientTokens, store0)"
proof -
  have h1: "findById store1 ''alice'' = Some (alice\<lparr>amount := 7, temporaryTokens := [bought 6]\<rparr>) \<and>
     chat_resolve (demo_upstream ''Hi there!'') store1 ''alice'' ''What is the time?'' ''temp'' ''n1''
       ''claude-3-haiku-20240307'' =
       Inr \<lparr>doc = alice\<lparr>amount := 7, temporaryTokens := [bought 6]\<rparr>, source = TempSource 0,
          provider_of = Anthropic, credential = ''sk-ant''\<rparr> \<and>
     handleProviderRequest (demo_upstream ''Hi there!'')
       (provider_of \<lparr>doc = alice\<lparr>amount := 7, temporaryTokens := [bought 6]\<rparr>,
          source = TempSource 0, provider_of = Anthropic, credential = ''sk-ant''\<rparr>)
       ''What is the time?'' ''claude-3-haiku-20240307''
       (credential \<lparr>doc = alice\<lparr>amount := 7, temporaryTokens := [bought 6]\<rparr>,
          source = TempSource 0, provider_of = Anthropic, credential = ''sk-ant''\<rparr>) =
       Inr \<lparr>text_out = ''Hi there!'',
          usage = \<lparr>promptTokens = 5, completionTokens = 3, totalTokens = 8\<rparr>\<rparr> \<and>
     ((''temp'' = ''temp'' \<and>
        find (\<lambda>k. tok_id k = ''n1'')
          (temporaryTokens (alice\<lparr>amount := 7, temporaryTokens := [bought 6]\<rparr>)) = Some (bought 6) \<and>
        tokensRemaining (bought 6) < totalTokens (usage \<lparr>text_out = ''Hi there!'',
          usage = \<lparr>promptTokens = 5, completionTokens = 3, totalTokens = 8\<rparr>\<rparr>))
      \<or> (''temp'' = ''user'' \<and>
        find (\<lambda>k. key_id k = ''n1'')
          (api_keys (alice\<lparr>amount := 7, temporaryTokens := [bought 6]\<rparr>)) = Some claude_key \<and>
        available claude_key < totalTokens (usage \<lparr>text_out = ''Hi there!'',
          usage = \<lparr>promptTokens = 5, completionTokens = 3, totalTokens = 8\<rparr>\<rparr>)))"
    using resolve_alice1 call_hi by (simp add: findById_def scenario_defs)
  have h2: "findById store0 ''bob'' = Some bob \<and>
     chat_resolve (demo_upstream ''Hi there!'') store0 ''bob'' ''What is the time?'' ''user'' ''k1''
       ''claude-3-haiku-20240307'' =
       Inr \<lparr>doc = bob, source = OwnedSource 0, provider_of = Anthropic, credential = ''sk-ant''\<rparr> \<and>
     handleProviderRequest (demo_upstream ''Hi there!'')
       (provider_of \<lparr>doc = bob, source = OwnedSource 0, provider_of = Anthropic,
          credential = ''sk-ant''\<rparr>)
       ''What is the time?'' ''claude-3-haiku-20240307''
       (credential \<lparr>doc = bob, source = OwnedSource 0, provider_of = Anthropic,
          credential = ''sk-ant''\<rparr>) =
       Inr \<lparr>text_out = ''Hi there!'',
          usage = \<lparr>promptTokens = 5, completionTokens = 3, totalTokens = 8\<rparr>\<rparr> \<and>
     ((''user'' = ''temp'' \<and>
        find (\<lambda>k. tok_id k = ''k1'') (temporaryTokens bob) = Some listing \<and>
        tokensRemaining listing < totalTokens (usage \<lparr>text_out = ''Hi there!'',
          usage = \<lparr>promptTokens = 5, completionTokens = 3, totalTokens = 8\<rparr>\<rparr>))
      \<or> (''user'' = ''user'' \<and>
        find (\<lambda>k. key_id k = ''k1'') (api_keys bob) = Some claude_key \<and>
        available claude_key < totalTokens (usage \<lparr>text_out = ''Hi there!'',
          usage = \<lparr>promptTokens = 5, completionTokens = 3, totalTokens = 8\<rparr>\<rparr>)))"
    using resolve_bob0 call_hi by (simp add: findById_def scenario_defs)
  from overdraft_rejected [where rnd = round_double, rule_format, OF h1]
    overdraft_rejected [where rnd = round_double, rule_format, OF h2]
  show ?thesis by simp
qed

lemma chat_alice_full:
  "chat round_double (demo_upstream ''Hello there!'') store_full ''alice'' ''How are you?'' ''temp''
       ''n1'' ''claude-3-haiku-20240307'' =
     (Inr \<lparr>response = ''Hello there!'',
           reply_usage = \<lparr>promptTokens = 3, completionTokens = 3, totalTokens = 6\<rparr>,
           remainingTokens = 4\<rparr>,
      [alice\<lparr>amount := 5, temporaryTokens := [bought 4]\<rparr>,
       bob\<lparr>amount := 5, temporaryTokens := []\<rparr>])"
  by (simp add: chat_def chat_after_resolve_def chat_resolve_def chat_debit_def findById_def
      save_def scenario_defs store_full_def Let_def or_else_def provider_claude_key
      demo_upstream_def handleAnthropicRequest_def ceiling_rat_numeral double_whole)


text \<open>From \<open>2 ^ 53\<close> on a debit is rounded: eight tokens taken from an owned key with
  \<open>2 ^ 60\<close> available leave \<open>2 ^ 60\<close>.\<close>

lemma large_debit_rounded:
  "chat round_double (demo_upstream ''Hi there!'')
       [bob\<lparr>api_keys := [claude_key\<lparr>available := 1152921504606846976\<rparr>]\<rparr>]
       ''bob'' ''What is the time?'' ''user'' ''k1'' ''claude-3-haiku-20240307'' =
     (Inr \<lparr>response = ''Hi there!'',
           reply_usage = \<lparr>promptTokens = 5, completionTokens = 3, totalTokens = 8\<rparr>,
           remainingTokens = 1152921504606846976\<rparr>,
      [bob\<lparr>api_keys := [claude_key\<lparr>available := 1152921504606846976\<rparr>]\<rparr>])"
  by (simp add: chat_def chat_after_resolve_def chat_resolve_def chat_debit_def findById_def
      save_def scenario_defs Let_def provider_claude_key demo_upstream_def
      handleAnthropicRequest_def ceiling_rat_numeral double_bulk)

text \<open>A bundle that expired at 100 is served at any later time, say 200: the handler
  never reads the clock.\<close>

theorem expired_bundle_served:
  "store_full = [alice\<lparr>amount := 5, temporaryTokens := [bought 10]\<rparr>,
                 bob\<lparr>amount := 5, temporaryTokens := []\<rparr>]
   \<and> tok_id (bought 10) = ''n1''
   \<and> expiresAt (bought 10) < 200
   \<and> chat round_double (demo_upstream ''Hello there!'') store_full ''alice'' ''How are you?''
       ''temp'' ''n1'' ''claude-3-haiku-20240307'' =
     (Inr \<lparr>response = ''Hello there!'',
           reply_usage = \<lparr>promptTokens = 3, completionTokens = 3, totalTokens = 6\<rparr>,
           remainingTokens = 4\<rparr>,
      [alice\<lparr>amount := 5, temporaryTokens := [bought 4]\<rparr>,
       bob\<lparr>amount := 5, temporaryTokens := []\<rparr>])"
  using chat_alice_full by (simp add: store_full_def bought_def)

lemma shift_expiry_fields:
  "tok_id (shift_expiry f t) = tok_id t"
  "tokensRemaining (shift_expiry f t) = tokensRemaining t"
  "sellerId (shift_expiry f t) = sellerId t"
  "originalApiKeyId (shift_expiry f t) = originalApiKeyId t"
  "apiKeyName (shift_expiry f t) = apiKeyName t"
  by (simp_all add: shift_expiry_def)

lemma shift_expiry_debit:
  "(shift_expiry f t)\<lparr>tokensRemaining := n\<rparr> = shift_expiry f (t\<lparr>tokensRemaining := n\<rparr>)"
  by (simp add: shift_expiry_def)

lemma set_expiry_fields:
  "user_id (set_expiry f u) = user_id u"
  "api_keys (set_expiry f u) = api_keys u"
  "temporaryTokens (set_expiry f u) = map (shift_expiry f) (temporaryTokens u)"
  by (simp_all add: set_expiry_def)

lemma set_expiry_tokens:
  "(set_expiry f u)\<lparr>temporaryTokens := map (shift_expiry f) xs\<rparr> =
     set_expiry f (u\<lparr>temporaryTokens := xs\<rparr>)"
  by (simp add: set_expiry_def)

lemma set_expiry_keys:
  "(set_expiry f u)\<lparr>api_keys := ks\<rparr> = set_expiry f (u\<lparr>api_keys := ks\<rparr>)"
  by (simp add: set_expiry_def)

lemma findIndex_map: "findIndex P (map g xs) = findIndex (\<lambda>x. P (g x)) xs"
  by (induction xs) auto

lemma filter_shift_expiry:
  "filter (\<lambda>k. tok_id k \<noteq> i) (map (shift_expiry f) xs) =
   map (shift_expiry f) (filter (\<lambda>k. tok_id k \<noteq> i) xs)"
  by (induction xs) (auto simp: shift_expiry_fields)

lemma findById_with_expiry:
  "findById (with_expiry f d) i = map_option (set_expiry f) (findById d i)"
  unfolding findById_def with_expiry_def by (induction d) (auto simp: set_expiry_fields)

lemma save_with_expiry:
  "save (set_expiry f u) (with_expiry f d) = with_expiry f (save u d)"
  unfolding save_def with_expiry_def by (induction d) (auto simp: set_expiry_fields)

lemma chat_resolve_with_expiry:
  "chat_resolve up (with_expiry f d) userId message keyType keyId modelId =
     map_sum id (\<lambda>r. r\<lparr>doc := set_expiry f (doc r)\<rparr>)
       (chat_resolve up d userId message keyType keyId modelId)"
proof (cases "findById d userId")
  case None
  then show ?thesis
    unfolding chat_resolve_def by (simp add: findById_with_expiry)
next
  case (Some user)
  show ?thesis
  proof (cases "findIndex (\<lambda>k. tok_id k = keyId) (temporaryTokens user)")
    case None
    with Some show ?thesis
      unfolding chat_resolve_def Let_def
      by (auto simp: findById_with_expiry set_expiry_fields shift_expiry_fields findIndex_map
          split: option.splits sum.splits)
  next
    case (Some i)
    from findIndex_Some [OF Some] have i: "i < length (temporaryTokens user)" by simp
    with Some \<open>findById d userId = Some user\<close> show ?thesis
      unfolding chat_resolve_def Let_def
      by (auto simp: findById_with_expiry set_expiry_fields shift_expiry_fields findIndex_map
          split: option.splits sum.splits)
  qed
qed

lemma chat_debit_with_expiry:
  assumes "case source r of TempSource i \<Rightarrow> i < length (temporaryTokens (doc r))
           | OwnedSource i \<Rightarrow> True"
  shows "chat_debit rnd (r\<lparr>doc := set_expiry f (doc r)\<rparr>) keyId resp (with_expiry f d) =
     map_prod id (with_expiry f) (chat_debit rnd r keyId resp d)"
proof (cases "source r")
  case (TempSource i)
  with assms have i: "i < length (temporaryTokens (doc r))" by simp
  show ?thesis
    unfolding chat_debit_def Let_def using TempSource i
    by (simp add: set_expiry_fields shift_expiry_fields shift_expiry_debit
        map_update [symmetric] filter_shift_expiry set_expiry_tokens save_with_expiry)
next
  case (OwnedSource i)
  show ?thesis
    unfolding chat_debit_def Let_def using OwnedSource
    by (simp add: set_expiry_fields set_expiry_keys save_with_expiry)
qed

lemma chat_resolve_index:
  assumes "chat_resolve up d userId message keyType keyId modelId = Inr r"
  shows "case source r of TempSource i \<Rightarrow> i < length (temporaryTokens (doc r))
           | OwnedSource i \<Rightarrow> True"
  using assms unfolding chat_resolve_def Let_def
  by (auto split: if_splits option.splits sum.splits dest: findIndex_Some)

text \<open>Claim C7, as the code has it. The chat handler does not consult \<open>expiresAt\<close>: the reply
  or error of a request is the same whatever the expiry dates of the stored bundles are, and
  the store it leaves differs only in those dates. A purchased bundle whose \<open>expiresAt\<close> is
  earlier than the current time is served like any other; no request fails as expired.\<close>

theorem chat_ignores_expiry:
  "chat rnd up (with_expiry f d) userId message keyType keyId modelId =
     (fst (chat rnd up d userId message keyType keyId modelId),
      with_expiry f (snd (chat rnd up d userId message keyType keyId modelId)))"
proof (cases "chat_resolve up d userId message keyType keyId modelId")
  case (Inl e)
  then show ?thesis
    unfolding chat_def chat_after_resolve_def chat_resolve_with_expiry by simp
next
  case (Inr r)
  note idx = chat_resolve_index [OF Inr]
  show ?thesis
  proof (cases "handleProviderRequest up (provider_of r) message modelId (credential r)")
    case (Inl e)
    with Inr show ?thesis
      unfolding chat_def chat_after_resolve_def chat_resolve_with_expiry by simp
  next
    case (Inr resp)
    with \<open>chat_resolve up d userId message keyType keyId modelId = Inr r\<close> show ?thesis
      unfolding chat_def chat_after_resolve_def chat_resolve_with_expiry
      by (cases "chat_debit rnd r keyId resp d") (simp add: chat_debit_with_expiry [OF idx])
  qed
qed


lemma chat_debit_temp_ok:
  assumes "source r = TempSource i"
    and "findIndex (\<lambda>k. tok_id k = keyId) (temporaryTokens (doc r)) = Some i"
    and "totalTokens (usage resp) \<le> tokensRemaining (temporaryTokens (doc r) ! i)"
    and "0 < rounded rnd (tokensRemaining (temporaryTokens (doc r) ! i) - totalTokens (usage resp))"
  shows "chat_debit rnd r keyId resp d =
     (Inr \<lparr>response = text_out resp, reply_usage = usage resp,
           remainingTokens =
             rounded rnd (tokensRemaining (temporaryTokens (doc r) ! i) - totalTokens (usage resp))\<rparr>,
      save ((doc r)\<lparr>temporaryTokens := (temporaryTokens (doc r))
              [i := (temporaryTokens (doc r) ! i)
                 \<lparr>tokensRemaining :=
                    rounded rnd
                      (tokensRemaining (temporaryTokens (doc r) ! i) - totalTokens (usage resp))\<rparr>]\<rparr>) d)"
  using assms unfolding chat_debit_def Let_def by simp

lemma findById_save_doc:
  assumes "findById d i = Some u" "user_id u' = user_id u"
  shows "findById (save u' d) i = Some u'"
  using assms findById_id [OF assms(1)] by (simp add: findById_save)

text \<open>Claim C9, as the code has it. Two chat requests of one user debit the same purchased
  bundle; each costs no more than the bundle holds and would leave some of it, and what the
  first leaves does not cover the second (10 tokens, 6 each). The debit is a check and a
  write on the copy of the document each request has loaded. When both requests have loaded
  the document before either saves, both succeed, each reports what its own debit leaves,
  and the store ends with the count the second save wrote (4): never below zero, and one
  debit is lost. When the second request starts after the first has saved, the first
  succeeds and the second fails with \<open>InsufficientTokens\<close>.\<close>

theorem overlapped_debits:
  assumes user: "findById d userId = Some user"
    and source: "find (\<lambda>k. tok_id k = keyId) (temporaryTokens user) = Some tempKey"
    and resA: "chat_resolve up d userId messageA ''temp'' keyId modelA = Inr rA"
    and resB: "chat_resolve up d userId messageB ''temp'' keyId modelB = Inr rB"
    and callA: "handleProviderRequest up (provider_of rA) messageA modelA (credential rA) = Inr respA"
    and callB: "handleProviderRequest up (provider_of rB) messageB modelB (credential rB) = Inr respB"
    and costA: "totalTokens (usage respA) \<le> tokensRemaining tempKey"
    and costB: "totalTokens (usage respB) \<le> tokensRemaining tempKey"
    and leftA: "0 < rounded rnd (tokensRemaining tempKey - totalTokens (usage respA))"
    and leftB: "0 < rounded rnd (tokensRemaining tempKey - totalTokens (usage respB))"
    and short: "rounded rnd (tokensRemaining tempKey - totalTokens (usage respA))
                  < totalTokens (usage respB)"
  shows "(\<exists>replyA replyB d2 user2.
            chat_overlapped rnd up d userId ''temp'' keyId messageA modelA messageB modelB =
              (Inr replyA, Inr replyB, d2) \<and>
            remainingTokens replyA =
              rounded rnd (tokensRemaining tempKey - totalTokens (usage respA)) \<and>
            remainingTokens replyB =
              rounded rnd (tokensRemaining tempKey - totalTokens (usage respB)) \<and>
            findById d2 userId = Some user2 \<and>
            find (\<lambda>k. tok_id k = keyId) (temporaryTokens user2) =
              Some (tempKey\<lparr>tokensRemaining :=
                      rounded rnd (tokensRemaining tempKey - totalTokens (usage respB))\<rparr>))
       \<and> (\<exists>replyA d1 user1.
            chat_in_turn rnd up d userId ''temp'' keyId messageA modelA messageB modelB =
              (Inr replyA, Inl InsufficientTokens, d1) \<and>
            remainingTokens replyA =
              rounded rnd (tokensRemaining tempKey - totalTokens (usage respA)) \<and>
            findById d1 userId = Some user1 \<and>
            find (\<lambda>k. tok_id k = keyId) (temporaryTokens user1) =
              Some (tempKey\<lparr>tokensRemaining :=
                      rounded rnd (tokensRemaining tempKey - totalTokens (usage respA))\<rparr>))"
proof -
  define a where "a = rounded rnd (tokensRemaining tempKey - totalTokens (usage respA))"
  define b where "b = rounded rnd (tokensRemaining tempKey - totalTokens (usage respB))"
  from chat_resolve_temp_Inr [OF resA] user obtain i seller k where
    reqA: "messageA \<noteq> []" "keyId \<noteq> []" "modelA \<noteq> []" and
    fi: "findIndex (\<lambda>k. tok_id k = keyId) (temporaryTokens user) = Some i" and
    fs: "findById d (sellerId (temporaryTokens user ! i)) = Some seller" and
    fk: "find (\<lambda>k. key_id k = originalApiKeyId (temporaryTokens user ! i)) (api_keys seller) = Some k" and
    rA: "rA = \<lparr>doc = user, source = TempSource i, provider_of = provider_of rA,
          credential = decrypt up (key k)\<rparr>"
    by (elim exE conjE) simp
  from chat_resolve_temp_Inr [OF resB] user fi fs fk have
    reqB: "messageB \<noteq> []" "modelB \<noteq> []" and
    pB: "getProviderFromModel (or_else (apiKeyName (temporaryTokens user ! i)) (key_name k))
           = Inr (provider_of rB)" and
    rB: "rB = \<lparr>doc = user, source = TempSource i, provider_of = provider_of rB,
          credential = decrypt up (key k)\<rparr>"
    by (elim exE conjE; simp)+
  have tk: "temporaryTokens user ! i = tempKey"
    using findIndex_find [OF fi] source by simp
  have docs: "doc rA = user" "source rA = TempSource i" "doc rB = user" "source rB = TempSource i"
    by (subst rA, simp)+ (subst rB, simp)+
  define userA where "userA = user\<lparr>temporaryTokens := (temporaryTokens user)
      [i := tempKey\<lparr>tokensRemaining := a\<rparr>]\<rparr>"
  define userB where "userB = user\<lparr>temporaryTokens := (temporaryTokens user)
      [i := tempKey\<lparr>tokensRemaining := b\<rparr>]\<rparr>"
  have debitA: "chat_debit rnd rA keyId respA d' =
     (Inr \<lparr>response = text_out respA, reply_usage = usage respA, remainingTokens = a\<rparr>,
      save userA d')" for d'
    using chat_debit_temp_ok [of rA i keyId respA rnd d'] docs fi costA leftA tk
    unfolding userA_def a_def by simp
  have debitB: "chat_debit rnd rB keyId respB d' =
     (Inr \<lparr>response = text_out respB, reply_usage = usage respB, remainingTokens = b\<rparr>,
      save userB d')" for d'
    using chat_debit_temp_ok [of rB i keyId respB rnd d'] docs fi costB leftB tk
    unfolding userB_def b_def by simp
  have ids: "user_id userA = user_id user" "user_id userB = user_id user"
    "api_keys userA = api_keys user"
    by (simp_all add: userA_def userB_def)
  have fA: "findById (save userA d) userId = Some userA"
    by (rule findById_save_doc [OF user ids(1)])
  have fB: "findById (save userB (save userA d)) userId = Some userB"
    by (rule findById_save_doc [OF fA]) (simp add: ids)
  have findA: "find (\<lambda>k. tok_id k = keyId) (temporaryTokens userA) =
      Some (tempKey\<lparr>tokensRemaining := a\<rparr>)"
    using find_update_same_id [OF fi] tk unfolding userA_def by simp
  have findB: "find (\<lambda>k. tok_id k = keyId) (temporaryTokens userB) =
      Some (tempKey\<lparr>tokensRemaining := b\<rparr>)"
    using find_update_same_id [OF fi] tk unfolding userB_def by simp
  have over: "chat_overlapped rnd up d userId ''temp'' keyId messageA modelA messageB modelB =
      (Inr \<lparr>response = text_out respA, reply_usage = usage respA, remainingTokens = a\<rparr>,
       Inr \<lparr>response = text_out respB, reply_usage = usage respB, remainingTokens = b\<rparr>,
       save userB (save userA d))"
    unfolding chat_overlapped_def chat_after_resolve_def resA resB Let_def
    using callA callB by (simp add: debitA debitB)
  have first: "chat rnd up d userId messageA ''temp'' keyId modelA =
      (Inr \<lparr>response = text_out respA, reply_usage = usage respA, remainingTokens = a\<rparr>,
       save userA d)"
    unfolding chat_def chat_after_resolve_def resA using callA by (simp add: debitA)
  have fiA: "findIndex (\<lambda>k. tok_id k = keyId) (temporaryTokens userA) = Some i"
    unfolding userA_def using findIndex_update_same [OF fi] findIndex_Some [OF fi] tk by simp
  have nthA: "temporaryTokens userA ! i = tempKey\<lparr>tokensRemaining := a\<rparr>"
    using findIndex_find [OF fiA] findA by simp
  obtain seller' where
    fs': "findById (save userA d) (sellerId tempKey) = Some seller'" and
    ks': "api_keys seller' = api_keys seller"
  proof (cases "sellerId tempKey = userId")
    case True
    then have "seller = user" using fs user tk by simp
    with True fA ids(3) that show ?thesis by simp
  next
    case False
    then have "findById (save userA d) (sellerId tempKey) = Some seller"
      using fs tk ids(1) findById_id [OF user] by (simp add: findById_save)
    with that show ?thesis by simp
  qed
  have posA: "0 < a" using leftA unfolding a_def .
  have resB': "chat_resolve up (save userA d) userId messageB ''temp'' keyId modelB =
      Inr \<lparr>doc = userA, source = TempSource i, provider_of = provider_of rB,
          credential = decrypt up (key k)\<rparr>"
    using reqA(2) reqB fA fiA nthA posA fs' ks' fk pB tk
    by (intro chat_resolve_temp [where seller = seller']) simp_all
  have callB': "handleProviderRequest up (provider_of rB) messageB modelB (decrypt up (key k)) = Inr respB"
    using callB by (subst (asm) rB) simp
  have shortA: "a < totalTokens (usage respB)" using short unfolding a_def .
  have second: "chat rnd up (save userA d) userId messageB ''temp'' keyId modelB =
      (Inl InsufficientTokens, save userA d)"
    unfolding chat_def chat_after_resolve_def resB' using callB' nthA shortA
    by (simp add: chat_debit_def Let_def)
  have turn: "chat_in_turn rnd up d userId ''temp'' keyId messageA modelA messageB modelB =
      (Inr \<lparr>response = text_out respA, reply_usage = usage respA, remainingTokens = a\<rparr>,
       Inl InsufficientTokens, save userA d)"
    unfolding chat_in_turn_def Let_def first by (simp add: second)
  from over fB findB turn fA findA show ?thesis unfolding a_def b_def by simp
qed

lemma resolve_alice_full:
  "chat_resolve (demo_upstream ''Hello there!'') store_full ''alice'' ''How are you?'' ''temp'' ''n1''
       ''claude-3-haiku-20240307'' =
     Inr \<lparr>doc = alice\<lparr>amount := 5, temporaryTokens := [bought 10]\<rparr>, source = TempSource 0,
          provider_of = Anthropic, credential = ''sk-ant''\<rparr>"
  by (simp add: chat_resolve_def findById_def scenario_defs store_full_def Let_def or_else_def
      provider_claude_key demo_upstream_def)

lemma call_hello:
  "handleProviderRequest (demo_upstream ''Hello there!'') Anthropic ''How are you?''
       ''claude-3-haiku-20240307'' ''sk-ant'' =
     Inr \<lparr>text_out = ''Hello there!'',
          usage = \<lparr>promptTokens = 3, completionTokens = 3, totalTokens = 6\<rparr>\<rparr>"
  by (simp add: handleAnthropicRequest_def demo_upstream_def Let_def ceiling_rat_numeral)

text \<open>Ten tokens, two overlapping requests of six tokens each: both succeed.\<close>

theorem both_overlapped_debits_succeed:
  "store_full = [alice\<lparr>amount := 5, temporaryTokens := [bought 10]\<rparr>,
                 bob\<lparr>amount := 5, temporaryTokens := []\<rparr>]
   \<and> tok_id (bought 10) = ''n1''
   \<and> tokensRemaining (bought 10) = 10
   \<and> chat_overlapped round_double (demo_upstream ''Hello there!'') store_full ''alice'' ''temp''
        ''n1'' ''How are you?'' ''claude-3-haiku-20240307'' ''How are you?''
        ''claude-3-haiku-20240307'' =
      (Inr \<lparr>response = ''Hello there!'',
            reply_usage = \<lparr>promptTokens = 3, completionTokens = 3, totalTokens = 6\<rparr>,
            remainingTokens = 4\<rparr>,
       Inr \<lparr>response = ''Hello there!'',
            reply_usage = \<lparr>promptTokens = 3, completionTokens = 3, totalTokens = 6\<rparr>,
            remainingTokens = 4\<rparr>,
       [alice\<lparr>amount := 5, temporaryTokens := [bought 4]\<rparr>,
        bob\<lparr>amount := 5, temporaryTokens := []\<rparr>])"
proof -
  have run: "chat_overlapped round_double (demo_upstream ''Hello there!'') store_full ''alice''
        ''temp'' ''n1'' ''How are you?'' ''claude-3-haiku-20240307'' ''How are you?''
        ''claude-3-haiku-20240307'' =
      (Inr \<lparr>response = ''Hello there!'',
            reply_usage = \<lparr>promptTokens = 3, completionTokens = 3, totalTokens = 6\<rparr>,
            remainingTokens = 4\<rparr>,
       Inr \<lparr>response = ''Hello there!'',
            reply_usage = \<lparr>promptTokens = 3, completionTokens = 3, totalTokens = 6\<rparr>,
            remainingTokens = 4\<rparr>,
       [alice\<lparr>amount := 5, temporaryTokens := [bought 4]\<rparr>,
        bob\<lparr>amount := 5, temporaryTokens := []\<rparr>])"
    unfolding chat_overlapped_def resolve_alice_full chat_after_resolve_def Let_def
    by (simp add: handleAnthropicRequest_def demo_upstream_def ceiling_rat_numeral
        chat_debit_def Let_def save_def scenario_defs store_full_def double_whole)
  show ?thesis unfolding run by (simp add: store_full_def bought_def)
qed

text \<open>The same two requests, overlapped and in turn.\<close>

theorem overlapped_debits_witness:
  "(\<exists>replyA replyB d2 user2.
      chat_overlapped round_double (demo_upstream ''Hello there!'') store_full ''alice'' ''temp''
        ''n1'' ''How are you?'' ''claude-3-haiku-20240307'' ''How are you?''
        ''claude-3-haiku-20240307'' =
        (Inr replyA, Inr replyB, d2) \<and>
      remainingTokens replyA = 10 - 6 \<and> remainingTokens replyB = 10 - 6 \<and>
      findById d2 ''alice'' = Some user2 \<and>
      find (\<lambda>k. tok_id k = ''n1'') (temporaryTokens user2) = Some (bought 4))
   \<and> (\<exists>replyA d1 user1.
      chat_in_turn round_double (demo_upstream ''Hello there!'') store_full ''alice'' ''temp''
        ''n1'' ''How are you?'' ''claude-3-haiku-20240307'' ''How are you?''
        ''claude-3-haiku-20240307'' =
        (Inr replyA, Inl InsufficientTokens, d1) \<and>
      remainingTokens replyA = 10 - 6 \<and>
      findById d1 ''alice'' = Some user1 \<and>
      find (\<lambda>k. tok_id k = ''n1'') (temporaryTokens user1) = Some (bought 4))"
proof -
  have u: "findById store_full ''alice'' = Some (alice\<lparr>amount := 5, temporaryTokens := [bought 10]\<rparr>)"
    and s: "find (\<lambda>k. tok_id k = ''n1'')
              (temporaryTokens (alice\<lparr>amount := 5, temporaryTokens := [bought 10]\<rparr>)) = Some (bought 10)"
    by (simp_all add: findById_def scenario_defs store_full_def)
  have c: "handleProviderRequest (demo_upstream ''Hello there!'')
       (provider_of \<lparr>doc = alice\<lparr>amount := 5, temporaryTokens := [bought 10]\<rparr>,
          source = TempSource 0, provider_of = Anthropic, credential = ''sk-ant''\<rparr>)
       ''How are you?'' ''claude-3-haiku-20240307''
       (credential \<lparr>doc = alice\<lparr>amount := 5, temporaryTokens := [bought 10]\<rparr>,
          source = TempSource 0, provider_of = Anthropic, credential = ''sk-ant''\<rparr>) =
     Inr \<lparr>text_out = ''Hello there!'',
          usage = \<lparr>promptTokens = 3, completionTokens = 3, totalTokens = 6\<rparr>\<rparr>"
    using call_hello by simp
  have left: "rounded round_double (tokensRemaining (bought 10)
      - totalTokens (usage \<lparr>text_out = ''Hello there!'',
            usage = \<lparr>promptTokens = 3, completionTokens = 3, totalTokens = 6\<rparr>\<rparr>)) = 4"
    by (simp add: bought_def double_whole)
  have n: "totalTokens (usage \<lparr>text_out = ''Hello there!'',
          usage = \<lparr>promptTokens = 3, completionTokens = 3, totalTokens = 6\<rparr>\<rparr>)
        \<le> tokensRemaining (bought 10)"
      "0 < rounded round_double (tokensRemaining (bought 10)
      - totalTokens (usage \<lparr>text_out = ''Hello there!'',
            usage = \<lparr>promptTokens = 3, completionTokens = 3, totalTokens = 6\<rparr>\<rparr>))"
      "rounded round_double (tokensRemaining (bought 10)
      - totalTokens (usage \<lparr>text_out = ''Hello there!'',
            usage = \<lparr>promptTokens = 3, completionTokens = 3, totalTokens = 6\<rparr>\<rparr>))
        < totalTokens (usage \<lparr>text_out = ''Hello there!'',
            usage = \<lparr>promptTokens = 3, completionTokens = 3, totalTokens = 6\<rparr>\<rparr>)"
    unfolding left by (simp_all add: bought_def)
  have b4: "(bought 10)\<lparr>tokensRemaining := 4\<rparr> = bought 4"
    by (simp add: bought_def)
  from overlapped_debits [where rnd = round_double,
      OF u s resolve_alice_full resolve_alice_full c c n(1) n(1) n(2) n(2) n(3)]
  show ?thesis unfolding left by (simp add: b4)
qed

text \<open>The request of the expired bundle, with every expiry date moved to 1000.\<close>

theorem chat_ignores_expiry_witness:
  "chat round_double (demo_upstream ''Hello there!'') (with_expiry (\<lambda>e. 1000) store_full) ''alice''
       ''How are you?'' ''temp'' ''n1'' ''claude-3-haiku-20240307'' =
     (Inr \<lparr>response = ''Hello there!'',
           reply_usage = \<lparr>promptTokens = 3, completionTokens = 3, totalTokens = 6\<rparr>,
           remainingTokens = 4\<rparr>,
      with_expiry (\<lambda>e. 1000)
        [alice\<lparr>amount := 5, temporaryTokens := [bought 4]\<rparr>,
         bob\<lparr>amount := 5, temporaryTokens := []\<rparr>])"
  using chat_ignores_expiry [of round_double "demo_upstream ''Hello there!''" "\<lambda>e. 1000" store_full
      "''alice''" "''How are you?''" "''temp''" "''n1''" "''claude-3-haiku-20240307''"]
  unfolding chat_alice_full by simp

section \<open>The provider of a purchased bundle\<close>

lemma purchase_new_bundle:
  assumes p: "purchase rnd d userId sid tid a fid = Inr (reply, b', s')"
    and fb: "findById d userId = Some buyer"
    and fs: "findById d sid = Some seller"
    and ft: "find (\<lambda>t. tok_id t = tid) (temporaryTokens seller) = Some token"
    and none: "findIndex (\<lambda>t. name t = name token \<and> sellerId t = sid) (temporaryTokens buyer) = None"
  shows "purchasedToken reply =
           \<lparr>tok_id = fid, name = name token, apiKey = apiKey token, apiKeyName = None,
            tokensRemaining = tokensReceived reply, expiresAt = expiresAt token,
            pricePerToken = pricePerToken token, sellerId = sid,
            originalApiKeyId = originalApiKeyId token\<rparr>"
proof -
  from find_findIndex [OF ft] obtain i where
    fi: "findIndex (\<lambda>t. tok_id t = tid) (temporaryTokens seller) = Some i" and
    tok: "temporaryTokens seller ! i = token" by blast
  have sid: "user_id seller = sid" by (rule findById_id [OF fs])
  from p fb fs fi tok none sid show ?thesis
    unfolding purchase_def Let_def
    by (auto split: if_splits)
qed

text \<open>The ids of the named bundles of a collection. Debits, merges and pruning keep the
  \<^verbatim>\<open>apiKeyName\<close> of every bundle, and a new bundle has none.\<close>

lemma named_ids_set:
  "set (named_ids d) = (\<Union>u\<in>set d. tok_id ` {t \<in> set (temporaryTokens u). named t})"
  by (auto simp: named_ids_def)

lemma named_update:
  "tok_id ` {t \<in> set (xs[i := (xs ! i)\<lparr>tokensRemaining := c\<rparr>]). named t}
     \<subseteq> tok_id ` {t \<in> set xs. named t}"
proof (cases "i < length xs")
  case False
  then show ?thesis by (simp add: list_update_beyond)
next
  case True
  show ?thesis
  proof
    fix x
    assume "x \<in> tok_id ` {t \<in> set (xs[i := (xs ! i)\<lparr>tokensRemaining := c\<rparr>]). named t}"
    then obtain t where t: "t \<in> set (xs[i := (xs ! i)\<lparr>tokensRemaining := c\<rparr>])" "named t"
      and x: "x = tok_id t" by blast
    from t(1) set_update_subset_insert [of xs i "(xs ! i)\<lparr>tokensRemaining := c\<rparr>"]
    have "t = (xs ! i)\<lparr>tokensRemaining := c\<rparr> \<or> t \<in> set xs" by blast
    then show "x \<in> tok_id ` {t \<in> set xs. named t}"
    proof
      assume e: "t = (xs ! i)\<lparr>tokensRemaining := c\<rparr>"
      with t(2) have "named (xs ! i)" by (simp add: named_def)
      moreover have "xs ! i \<in> set xs" using True by simp
      moreover have "x = tok_id (xs ! i)" using x e by simp
      ultimately show ?thesis by blast
    next
      assume "t \<in> set xs"
      with t(2) x show ?thesis by blast
    qed
  qed
qed

lemma named_filter:
  "tok_id ` {t \<in> set (filter P xs). named t} \<subseteq> tok_id ` {t \<in> set xs. named t}"
  by auto

lemma named_append:
  "\<not> named new \<Longrightarrow>
   tok_id ` {t \<in> set (xs @ [new]). named t} \<subseteq> tok_id ` {t \<in> set xs. named t}"
  by auto

lemma named_ids_user:
  assumes "findById d i = Some u"
  shows "tok_id ` {t \<in> set (temporaryTokens u). named t} \<subseteq> set (named_ids d)"
proof -
  from assms have "u \<in> set d"
    unfolding findById_def by (auto simp: find_Some_iff)
  then show ?thesis unfolding named_ids_set by blast
qed

lemma named_ids_save_other:
  assumes "tok_id ` {t \<in> set (temporaryTokens u'). named t} \<subseteq> A"
  shows "set (named_ids (save u' d)) \<subseteq> A \<union> set (named_ids d)"
proof -
  have "set (save u' d) \<subseteq> insert u' (set d)"
    unfolding save_def by auto
  then have "set (named_ids (save u' d))
      \<subseteq> tok_id ` {t \<in> set (temporaryTokens u'). named t} \<union> set (named_ids d)"
    unfolding named_ids_set by blast
  with assms show ?thesis by blast
qed

lemma named_ids_save:
  assumes "tok_id ` {t \<in> set (temporaryTokens u'). named t} \<subseteq> set (named_ids d)"
  shows "set (named_ids (save u' d)) \<subseteq> set (named_ids d)"
  using named_ids_save_other [OF assms, of d] by simp

lemma purchase_named:
  assumes p: "purchase rnd d userId sid tid a fid = Inr (reply, b', s')"
  shows "tok_id ` {t \<in> set (temporaryTokens b'). named t} \<subseteq> set (named_ids d)"
    and "tok_id ` {t \<in> set (temporaryTokens s'). named t} \<subseteq> set (named_ids d)"
proof -
  from purchase_Inr [OF p] obtain buyer seller i where
    fb: "findById d userId = Some buyer" and fs: "findById d sid = Some seller" and
    tb: "temporaryTokens b' =
                 (case findIndex (\<lambda>t. name t = name (temporaryTokens seller ! i) \<and> sellerId t = sid)
                        (temporaryTokens buyer) of
                    Some j \<Rightarrow> (temporaryTokens buyer)
                       [j := (temporaryTokens buyer ! j)
                          \<lparr>tokensRemaining :=
                             rounded rnd (tokensRemaining (temporaryTokens buyer ! j) + tokensReceived reply)\<rparr>]
                  | None \<Rightarrow> temporaryTokens buyer @
                       [\<lparr>tok_id = fid, name = name (temporaryTokens seller ! i),
                         apiKey = apiKey (temporaryTokens seller ! i), apiKeyName = None,
                         tokensRemaining = tokensReceived reply,
                         expiresAt = expiresAt (temporaryTokens seller ! i),
                         pricePerToken = pricePerToken (temporaryTokens seller ! i),
                         sellerId = user_id seller,
                         originalApiKeyId = originalApiKeyId (temporaryTokens seller ! i)\<rparr>])" and
    ts: "temporaryTokens s' =
                  (if rounded rnd (tokensRemaining (temporaryTokens seller ! i) - tokensReceived reply) \<le> 0
                   then filter (\<lambda>t. tok_id t \<noteq> tid)
                      ((temporaryTokens seller)
                         [i := (temporaryTokens seller ! i)
                            \<lparr>tokensRemaining :=
                               rounded rnd (tokensRemaining (temporaryTokens seller ! i) - tokensReceived reply)\<rparr>])
                   else (temporaryTokens seller)
                         [i := (temporaryTokens seller ! i)
                            \<lparr>tokensRemaining :=
                               rounded rnd (tokensRemaining (temporaryTokens seller ! i) - tokensReceived reply)\<rparr>])"
    by (elim exE conjE) simp
  have "tok_id ` {t \<in> set (temporaryTokens b'). named t}
      \<subseteq> tok_id ` {t \<in> set (temporaryTokens buyer). named t}"
  proof (cases "findIndex (\<lambda>t. name t = name (temporaryTokens seller ! i) \<and> sellerId t = sid)
                        (temporaryTokens buyer)")
    case None
    show ?thesis unfolding tb None option.case
      by (rule named_append) (simp add: named_def)
  next
    case (Some j)
    show ?thesis unfolding tb Some option.case by (rule named_update)
  qed
  with named_ids_user [OF fb]
  show "tok_id ` {t \<in> set (temporaryTokens b'). named t} \<subseteq> set (named_ids d)" by blast
  have "tok_id ` {t \<in> set (temporaryTokens s'). named t}
      \<subseteq> tok_id ` {t \<in> set (temporaryTokens seller). named t}"
  proof (cases "rounded rnd (tokensRemaining (temporaryTokens seller ! i) - tokensReceived reply) \<le> 0")
    case True
    show ?thesis unfolding ts if_P [OF True]
      by (rule subset_trans [OF named_filter named_update])
  next
    case False
    show ?thesis unfolding ts if_not_P [OF False] by (rule named_update)
  qed
  with named_ids_user [OF fs]
  show "tok_id ` {t \<in> set (temporaryTokens s'). named t} \<subseteq> set (named_ids d)" by blast
qed

lemma buy_tokens_named:
  "set (named_ids (snd (buy_tokens rnd d userId sid tid a fid))) \<subseteq> set (named_ids d)"
proof (cases "purchase rnd d userId sid tid a fid")
  case (Inl e)
  then show ?thesis unfolding buy_tokens_def by simp
next
  case (Inr x)
  obtain reply b' s' where x: "x = (reply, b', s')" by (cases x)
  note p = Inr [unfolded x]
  have "set (named_ids (save b' d)) \<subseteq> set (named_ids d)"
    by (rule named_ids_save [OF purchase_named(1) [OF p]])
  moreover have "set (named_ids (save s' (save b' d))) \<subseteq> set (named_ids d)"
  proof -
    have "set (save s' (save b' d)) \<subseteq> insert s' (set (save b' d))"
      unfolding save_def by auto
    then have "set (named_ids (save s' (save b' d)))
        \<subseteq> tok_id ` {t \<in> set (temporaryTokens s'). named t} \<union> set (named_ids (save b' d))"
      unfolding named_ids_set by blast
    with purchase_named(2) [OF p] calculation show ?thesis by blast
  qed
  ultimately show ?thesis unfolding buy_tokens_def p by simp
qed

text \<open>The debit saves the copy that was loaded from a store \<open>d0\<close> into the store \<open>d\<close> of the
  moment.\<close>

lemma chat_debit_named:
  assumes "doc r \<in> set d0"
  shows "set (named_ids (snd (chat_debit rnd r keyId resp d)))
           \<subseteq> set (named_ids d0) \<union> set (named_ids d)"
proof -
  have u: "tok_id ` {t \<in> set (temporaryTokens (doc r)). named t} \<subseteq> set (named_ids d0)"
    using assms unfolding named_ids_set by blast
  show ?thesis
  proof (cases "source r")
    case (TempSource i)
    define xs where "xs = temporaryTokens (doc r)"
    define c where "c = rounded rnd (tokensRemaining (xs ! i) - totalTokens (usage resp))"
    define upd where "upd = xs[i := (xs ! i)\<lparr>tokensRemaining := c\<rparr>]"
    have n1: "tok_id ` {t \<in> set upd. named t} \<subseteq> set (named_ids d0)"
      unfolding upd_def using named_update [of xs i c] u unfolding xs_def by blast
    have n2: "tok_id ` {t \<in> set (filter (\<lambda>k. tok_id k \<noteq> keyId) upd). named t}
        \<subseteq> set (named_ids d0)"
      using named_filter [of "\<lambda>k. tok_id k \<noteq> keyId" upd] n1 by blast
    show ?thesis
    proof (cases "tokensRemaining (xs ! i) < totalTokens (usage resp)")
      case True
      then have "snd (chat_debit rnd r keyId resp d) = d"
        unfolding chat_debit_def Let_def TempSource xs_def by simp
      then show ?thesis by simp
    next
      case enough: False
      show ?thesis
      proof (cases "c \<le> 0")
        case True
        have "snd (chat_debit rnd r keyId resp d) =
            save ((doc r)\<lparr>temporaryTokens := filter (\<lambda>k. tok_id k \<noteq> keyId) upd\<rparr>) d"
          using enough True
          unfolding chat_debit_def Let_def TempSource upd_def c_def xs_def by simp
        moreover have "set (named_ids
            (save ((doc r)\<lparr>temporaryTokens := filter (\<lambda>k. tok_id k \<noteq> keyId) upd\<rparr>) d))
            \<subseteq> set (named_ids d0) \<union> set (named_ids d)"
          by (rule named_ids_save_other) (use n2 in simp)
        ultimately show ?thesis by simp
      next
        case False
        have "snd (chat_debit rnd r keyId resp d) = save ((doc r)\<lparr>temporaryTokens := upd\<rparr>) d"
          using enough False
          unfolding chat_debit_def Let_def TempSource upd_def c_def xs_def by simp
        moreover have "set (named_ids (save ((doc r)\<lparr>temporaryTokens := upd\<rparr>) d))
            \<subseteq> set (named_ids d0) \<union> set (named_ids d)"
          by (rule named_ids_save_other) (use n1 in simp)
        ultimately show ?thesis by simp
      qed
    qed
  next
    case (OwnedSource i)
    show ?thesis
    proof (cases "available (api_keys (doc r) ! i) < totalTokens (usage resp)")
      case True
      then have "snd (chat_debit rnd r keyId resp d) = d"
        unfolding chat_debit_def Let_def OwnedSource by simp
      then show ?thesis by simp
    next
      case False
      define ks where "ks = (api_keys (doc r))
          [i := (api_keys (doc r) ! i)
             \<lparr>available := rounded rnd (available (api_keys (doc r) ! i) - totalTokens (usage resp))\<rparr>]"
      have "snd (chat_debit rnd r keyId resp d) = save ((doc r)\<lparr>api_keys := ks\<rparr>) d"
        using False unfolding chat_debit_def Let_def OwnedSource ks_def by simp
      moreover have "set (named_ids (save ((doc r)\<lparr>api_keys := ks\<rparr>) d))
          \<subseteq> set (named_ids d0) \<union> set (named_ids d)"
        by (rule named_ids_save_other) (use u in simp)
      ultimately show ?thesis by simp
    qed
  qed
qed

lemma chat_resolve_doc:
  assumes "chat_resolve up d userId message keyType keyId modelId = Inr r"
  shows "doc r \<in> set d"
proof -
  from assms obtain user where "findById d userId = Some user" "doc r = user"
    unfolding chat_resolve_def Let_def
    by (auto split: if_splits option.splits sum.splits)
  then show ?thesis unfolding findById_def by (auto simp: find_Some_iff)
qed

lemma chat_after_resolve_named:
  "set (named_ids (snd (chat_after_resolve rnd up
       (chat_resolve up d0 userId message0 keyType keyId0 modelId0) message keyId modelId d)))
     \<subseteq> set (named_ids d0) \<union> set (named_ids d)"
proof (cases "chat_resolve up d0 userId message0 keyType keyId0 modelId0")
  case (Inl e)
  then show ?thesis unfolding chat_after_resolve_def by simp
next
  case (Inr r)
  note doc = chat_resolve_doc [OF Inr]
  show ?thesis
  proof (cases "handleProviderRequest up (provider_of r) message modelId (credential r)")
    case (Inl e)
    then show ?thesis
      unfolding chat_after_resolve_def \<open>chat_resolve up d0 userId message0 keyType keyId0 modelId0 = Inr r\<close>
      by simp
  next
    case (Inr resp)
    then show ?thesis
      unfolding chat_after_resolve_def \<open>chat_resolve up d0 userId message0 keyType keyId0 modelId0 = Inr r\<close>
      using chat_debit_named [OF doc, of rnd keyId resp d] by simp
  qed
qed

lemma chat_named:
  "set (named_ids (snd (chat rnd up d userId message keyType keyId modelId))) \<subseteq> set (named_ids d)"
  unfolding chat_def
  using chat_after_resolve_named [of rnd up d userId message keyType keyId modelId message keyId modelId d]
  by simp

lemma chat_overlapped_named:
  "set (named_ids (snd (snd
       (chat_overlapped rnd up d userId keyType keyId messageA modelA messageB modelB))))
     \<subseteq> set (named_ids d)"
proof -
  define d1 where "d1 = snd (chat_after_resolve rnd up
      (chat_resolve up d userId messageA keyType keyId modelA) messageA keyId modelA d)"
  have one: "set (named_ids d1) \<subseteq> set (named_ids d)"
    unfolding d1_def
    using chat_after_resolve_named [of rnd up d userId messageA keyType keyId modelA messageA keyId modelA d]
    by simp
  have "snd (snd (chat_overlapped rnd up d userId keyType keyId messageA modelA messageB modelB)) =
      snd (chat_after_resolve rnd up
        (chat_resolve up d userId messageB keyType keyId modelB) messageB keyId modelB d1)"
    unfolding chat_overlapped_def Let_def d1_def by (simp add: split_def)
  moreover have "set (named_ids (snd (chat_after_resolve rnd up
        (chat_resolve up d userId messageB keyType keyId modelB) messageB keyId modelB d1)))
      \<subseteq> set (named_ids d) \<union> set (named_ids d1)"
    by (rule chat_after_resolve_named)
  ultimately show ?thesis using one by auto
qed

lemma serve_named: "set (named_ids (serve rnd up req d)) \<subseteq> set (named_ids d)"
  by (cases req) (simp_all add: buy_tokens_named chat_named)

lemma serve_all_named: "set (named_ids (serve_all rnd up reqs d)) \<subseteq> set (named_ids d)"
  unfolding serve_all_def
proof (induction reqs arbitrary: d)
  case Nil
  show ?case by simp
next
  case (Cons req reqs)
  have "set (named_ids (fold (serve rnd up) reqs (serve rnd up req d)))
      \<subseteq> set (named_ids (serve rnd up req d))" by (rule Cons.IH)
  with serve_named [of rnd up req d] show ?case by auto
qed

lemma resolved_bundle:
  assumes "chat_resolve up d userId message ''temp'' keyId modelId = Inr r"
  shows "\<exists>user tempKey seller originalApiKey.
     findById d userId = Some user \<and>
     find (\<lambda>k. tok_id k = keyId) (temporaryTokens user) = Some tempKey \<and>
     findById d (sellerId tempKey) = Some seller \<and>
     find (\<lambda>k. key_id k = originalApiKeyId tempKey) (api_keys seller) = Some originalApiKey \<and>
     credential r = decrypt up (key originalApiKey) \<and>
     (case apiKeyName tempKey of
        None \<Rightarrow> getProviderFromModel (key_name originalApiKey)
      | Some n \<Rightarrow> if n = [] then getProviderFromModel (key_name originalApiKey)
                  else getProviderFromModel n) = Inr (provider_of r)"
proof -
  from chat_resolve_temp_Inr [OF assms] obtain user i seller k where
    fu: "findById d userId = Some user" and
    fi: "findIndex (\<lambda>k. tok_id k = keyId) (temporaryTokens user) = Some i" and
    fs: "findById d (sellerId (temporaryTokens user ! i)) = Some seller" and
    fk: "find (\<lambda>k. key_id k = originalApiKeyId (temporaryTokens user ! i)) (api_keys seller) = Some k" and
    pr: "getProviderFromModel (or_else (apiKeyName (temporaryTokens user ! i)) (key_name k))
           = Inr (provider_of r)" and
    r: "r = \<lparr>doc = user, source = TempSource i, provider_of = provider_of r,
          credential = decrypt up (key k)\<rparr>"
    by (elim exE conjE) simp
  have cr: "credential r = decrypt up (key k)" by (subst r) simp
  have "(case apiKeyName (temporaryTokens user ! i) of
        None \<Rightarrow> getProviderFromModel (key_name k)
      | Some n \<Rightarrow> if n = [] then getProviderFromModel (key_name k)
                  else getProviderFromModel n) = Inr (provider_of r)"
    using pr unfolding or_else_def by (auto split: option.splits)
  with fu findIndex_find [OF fi] fs fk cr show ?thesis by blast
qed

text \<open>Claim C10. For a chat request served from a purchased bundle the handler reads the
  bundle's \<open>apiKeyName\<close> first and falls back to the name of the seller's original key: the
  provider is inferred from \<open>apiKeyName\<close> when it is set and not empty, and from the original
  key's name otherwise; the bundle's own \<open>name\<close> is not read. Purchase leaves \<open>apiKeyName\<close>
  unset on the bundle it creates, and neither a purchase nor a chat request, served alone or
  overlapped with another, ever gives an \<open>apiKeyName\<close> to a bundle: the ids of the bundles
  that carry one only become fewer. So for a bundle id that Purchase hands out, no named
  bundle having had that id, the fallback is taken by every request served from it, whoever
  sends it and whatever requests were served in between.\<close>

theorem purchased_bundle_provider:
  "(chat_resolve up d userId message ''temp'' keyId modelId = Inr r \<longrightarrow>
      (\<exists>user tempKey seller originalApiKey.
         findById d userId = Some user \<and>
         find (\<lambda>k. tok_id k = keyId) (temporaryTokens user) = Some tempKey \<and>
         findById d (sellerId tempKey) = Some seller \<and>
         find (\<lambda>k. key_id k = originalApiKeyId tempKey) (api_keys seller) = Some originalApiKey \<and>
         credential r = decrypt up (key originalApiKey) \<and>
         (case apiKeyName tempKey of
            None \<Rightarrow> getProviderFromModel (key_name originalApiKey)
          | Some n \<Rightarrow> if n = [] then getProviderFromModel (key_name originalApiKey)
                      else getProviderFromModel n) = Inr (provider_of r)))
   \<and> (buy_tokens rnd d userId sellerIdReq tokenId amountReq freshId = (Inr reply, d1) \<and>
        findById d userId = Some buyer \<and> findById d sellerIdReq = Some seller0 \<and>
        find (\<lambda>t. tok_id t = tokenId) (temporaryTokens seller0) = Some token \<and>
        (\<forall>t\<in>set (temporaryTokens buyer). \<not> (name t = name token \<and> sellerId t = sellerIdReq)) \<longrightarrow>
        purchasedToken reply =
           \<lparr>tok_id = freshId, name = name token, apiKey = apiKey token, apiKeyName = None,
            tokensRemaining = tokensReceived reply, expiresAt = expiresAt token,
            pricePerToken = pricePerToken token, sellerId = sellerIdReq,
            originalApiKeyId = originalApiKeyId token\<rparr>)
   \<and> set (named_ids (snd (buy_tokens rnd d userId sellerIdReq tokenId amountReq freshId)))
        \<subseteq> set (named_ids d)
   \<and> set (named_ids (snd (chat rnd up d userId message keyType keyId modelId)))
        \<subseteq> set (named_ids d)
   \<and> set (named_ids (snd (snd
          (chat_overlapped rnd up d userId keyType keyId messageA modelA messageB modelB))))
        \<subseteq> set (named_ids d)
   \<and> set (named_ids (serve_all rnd up reqs d)) \<subseteq> set (named_ids d)
   \<and> (buy_tokens rnd d userId sellerIdReq tokenId amountReq freshId = (Inr reply, d1) \<and>
        freshId \<notin> set (named_ids d) \<and>
        chat_resolve up (serve_all rnd up reqs d1) userId2 message2 ''temp'' freshId modelId2
          = Inr r2 \<longrightarrow>
        (\<exists>user tempKey seller originalApiKey.
           findById (serve_all rnd up reqs d1) userId2 = Some user \<and>
           find (\<lambda>k. tok_id k = freshId) (temporaryTokens user) = Some tempKey \<and>
           findById (serve_all rnd up reqs d1) (sellerId tempKey) = Some seller \<and>
           find (\<lambda>k. key_id k = originalApiKeyId tempKey) (api_keys seller) = Some originalApiKey \<and>
           credential r2 = decrypt up (key originalApiKey) \<and>
           getProviderFromModel (key_name originalApiKey) = Inr (provider_of r2)))"
proof (intro conjI impI)
  assume "chat_resolve up d userId message ''temp'' keyId modelId = Inr r"
  then show "\<exists>user tempKey seller originalApiKey.
         findById d userId = Some user \<and>
         find (\<lambda>k. tok_id k = keyId) (temporaryTokens user) = Some tempKey \<and>
         findById d (sellerId tempKey) = Some seller \<and>
         find (\<lambda>k. key_id k = originalApiKeyId tempKey) (api_keys seller) = Some originalApiKey \<and>
         credential r = decrypt up (key originalApiKey) \<and>
         (case apiKeyName tempKey of
            None \<Rightarrow> getProviderFromModel (key_name originalApiKey)
          | Some n \<Rightarrow> if n = [] then getProviderFromModel (key_name originalApiKey)
                      else getProviderFromModel n) = Inr (provider_of r)"
    by (rule resolved_bundle)
next
  assume h: "buy_tokens rnd d userId sellerIdReq tokenId amountReq freshId = (Inr reply, d1) \<and>
        findById d userId = Some buyer \<and> findById d sellerIdReq = Some seller0 \<and>
        find (\<lambda>t. tok_id t = tokenId) (temporaryTokens seller0) = Some token \<and>
        (\<forall>t\<in>set (temporaryTokens buyer). \<not> (name t = name token \<and> sellerId t = sellerIdReq))"
  then have ok: "buy_tokens rnd d userId sellerIdReq tokenId amountReq freshId = (Inr reply, d1)"
    by simp
  from buy_tokens_Inr [OF ok] obtain b1 s1 where
    p: "purchase rnd d userId sellerIdReq tokenId amountReq freshId = Inr (reply, b1, s1)"
    by blast
  have none: "findIndex (\<lambda>t. name t = name token \<and> sellerId t = sellerIdReq) (temporaryTokens buyer) = None"
    using h by (simp add: findIndex_None)
  from h have fb: "findById d userId = Some buyer"
    and fs: "findById d sellerIdReq = Some seller0"
    and ft: "find (\<lambda>t. tok_id t = tokenId) (temporaryTokens seller0) = Some token"
    by simp_all
  show "purchasedToken reply =
           \<lparr>tok_id = freshId, name = name token, apiKey = apiKey token, apiKeyName = None,
            tokensRemaining = tokensReceived reply, expiresAt = expiresAt token,
            pricePerToken = pricePerToken token, sellerId = sellerIdReq,
            originalApiKeyId = originalApiKeyId token\<rparr>"
    by (rule purchase_new_bundle [OF p fb fs ft none])
next
  show "set (named_ids (snd (buy_tokens rnd d userId sellerIdReq tokenId amountReq freshId)))
        \<subseteq> set (named_ids d)"
    by (rule buy_tokens_named)
next
  show "set (named_ids (snd (chat rnd up d userId message keyType keyId modelId)))
        \<subseteq> set (named_ids d)"
    by (rule chat_named)
next
  show "set (named_ids (snd (snd
          (chat_overlapped rnd up d userId keyType keyId messageA modelA messageB modelB))))
        \<subseteq> set (named_ids d)"
    by (rule chat_overlapped_named)
next
  show "set (named_ids (serve_all rnd up reqs d)) \<subseteq> set (named_ids d)"
    by (rule serve_all_named)
next
  assume h: "buy_tokens rnd d userId sellerIdReq tokenId amountReq freshId = (Inr reply, d1) \<and>
        freshId \<notin> set (named_ids d) \<and>
        chat_resolve up (serve_all rnd up reqs d1) userId2 message2 ''temp'' freshId modelId2
          = Inr r2"
  define d2 where "d2 = serve_all rnd up reqs d1"
  have d1: "d1 = snd (buy_tokens rnd d userId sellerIdReq tokenId amountReq freshId)"
    using h by simp
  have "set (named_ids d2) \<subseteq> set (named_ids d1)"
    unfolding d2_def by (rule serve_all_named)
  also have "\<dots> \<subseteq> set (named_ids d)"
    unfolding d1 by (rule buy_tokens_named)
  finally have unnamed: "freshId \<notin> set (named_ids d2)" using h by blast
  from h have res: "chat_resolve up d2 userId2 message2 ''temp'' freshId modelId2 = Inr r2"
    unfolding d2_def by simp
  from resolved_bundle [OF res] obtain user tempKey seller k where
    fu: "findById d2 userId2 = Some user" and
    ft: "find (\<lambda>k. tok_id k = freshId) (temporaryTokens user) = Some tempKey" and
    fs: "findById d2 (sellerId tempKey) = Some seller" and
    fk: "find (\<lambda>k. key_id k = originalApiKeyId tempKey) (api_keys seller) = Some k" and
    cr: "credential r2 = decrypt up (key k)" and
    pr: "(case apiKeyName tempKey of
            None \<Rightarrow> getProviderFromModel (key_name k)
          | Some n \<Rightarrow> if n = [] then getProviderFromModel (key_name k)
                      else getProviderFromModel n) = Inr (provider_of r2)"
    by blast
  from ft have mem: "tempKey \<in> set (temporaryTokens user)" "tok_id tempKey = freshId"
    by (auto simp: find_Some_iff)
  have "\<not> named tempKey"
  proof
    assume "named tempKey"
    with mem have "freshId \<in> tok_id ` {t \<in> set (temporaryTokens user). named t}" by blast
    with named_ids_user [OF fu] unnamed show False by blast
  qed
  then have "getProviderFromModel (key_name k) = Inr (provider_of r2)"
    using pr unfolding named_def by (auto split: option.splits if_splits)
  with fu ft fs fk cr show "\<exists>user tempKey seller originalApiKey.
           findById (serve_all rnd up reqs d1) userId2 = Some user \<and>
           find (\<lambda>k. tok_id k = freshId) (temporaryTokens user) = Some tempKey \<and>
           findById (serve_all rnd up reqs d1) (sellerId tempKey) = Some seller \<and>
           find (\<lambda>k. key_id k = originalApiKeyId tempKey) (api_keys seller) = Some originalApiKey \<and>
           credential r2 = decrypt up (key originalApiKey) \<and>
           getProviderFromModel (key_name originalApiKey) = Inr (provider_of r2)"
    unfolding d2_def by blast
qed

lemma provider_gemini_pro: "getProviderFromModel ''gemini-pro'' = Inr Gemini"
  by code_simp

lemma resolve_named:
  "chat_resolve (demo_upstream ''Hello there!'') named_store ''alice'' ''How are you?'' ''temp'' ''n1''
       ''claude-3-haiku-20240307'' =
     Inr \<lparr>doc = alice\<lparr>amount := 7, temporaryTokens := [(bought 6)\<lparr>apiKeyName := Some ''gemini-pro''\<rparr>]\<rparr>,
          source = TempSource 0, provider_of = Gemini, credential = ''sk-ant''\<rparr>"
  by (simp add: chat_resolve_def findById_def scenario_defs named_store_def Let_def or_else_def
      provider_gemini_pro demo_upstream_def)

lemma served_after_purchase:
  "serve_all round_double (demo_upstream ''Hello there!'')
       [Chat ''alice'' ''How are you?'' ''temp'' ''n1'' ''claude-3-haiku-20240307''] store_full =
     [alice\<lparr>amount := 5, temporaryTokens := [bought 4]\<rparr>,
      bob\<lparr>amount := 5, temporaryTokens := []\<rparr>]"
  unfolding serve_all_def by (simp add: chat_alice_full)

lemma resolve_after_debit:
  "chat_resolve (demo_upstream ''Hello there!'')
       [alice\<lparr>amount := 5, temporaryTokens := [bought 4]\<rparr>,
        bob\<lparr>amount := 5, temporaryTokens := []\<rparr>]
       ''alice'' ''And you?'' ''temp'' ''n1'' ''gpt-4o'' =
     Inr \<lparr>doc = alice\<lparr>amount := 5, temporaryTokens := [bought 4]\<rparr>, source = TempSource 0,
          provider_of = Anthropic, credential = ''sk-ant''\<rparr>"
  by (simp add: chat_resolve_def findById_def scenario_defs Let_def or_else_def
      provider_claude_key demo_upstream_def)

lemma unnamed_store0: "''n1'' \<notin> set (named_ids store0)"
  by (simp add: named_ids_def named_def scenario_defs)

text \<open>The buyer takes all ten tokens of the listing named "gpt-4 bundle" and spends six of
  them. A later request on the bundle, for the model "gpt-4o", is served by Anthropic, the
  provider of the seller's key "Work Claude key". A bundle that does carry an \<open>apiKeyName\<close>,
  "gemini-pro", is served by Gemini.\<close>

theorem purchased_bundle_provider_witness:
  "buy_tokens round_double store0 ''alice'' ''bob'' ''t1'' 5 ''n1'' =
     (Inr \<lparr>tokensReceived = 10, amountSpent = 5, remainingBalance = 5, purchasedToken = bought 10\<rparr>,
      store_full)
   \<and> ''n1'' \<notin> set (named_ids store0)
   \<and> tok_id (bought 10) = ''n1'' \<and> name (bought 10) = ''gpt-4 bundle''
   \<and> apiKeyName (bought 10) = None
   \<and> key_name claude_key = ''Work Claude key''
   \<and> serve_all round_double (demo_upstream ''Hello there!'')
       [Chat ''alice'' ''How are you?'' ''temp'' ''n1'' ''claude-3-haiku-20240307''] store_full =
     [alice\<lparr>amount := 5, temporaryTokens := [bought 4]\<rparr>,
      bob\<lparr>amount := 5, temporaryTokens := []\<rparr>]
   \<and> (\<exists>r2. chat_resolve (demo_upstream ''Hello there!'')
         (serve_all round_double (demo_upstream ''Hello there!'')
            [Chat ''alice'' ''How are you?'' ''temp'' ''n1'' ''claude-3-haiku-20240307''] store_full)
         ''alice'' ''And you?'' ''temp'' ''n1'' ''gpt-4o'' = Inr r2
       \<and> getProviderFromModel ''Work Claude key'' = Inr (provider_of r2)
       \<and> provider_of r2 = Anthropic)
   \<and> (\<exists>r. chat_resolve (demo_upstream ''Hello there!'') named_store ''alice'' ''How are you?''
         ''temp'' ''n1'' ''claude-3-haiku-20240307'' = Inr r
       \<and> getProviderFromModel ''gemini-pro'' = Inr (provider_of r)
       \<and> provider_of r = Gemini)
   \<and> set (named_ids store_full) \<subseteq> set (named_ids store0)"
proof -
  note main = purchased_bundle_provider [where rnd = round_double
      and up = "demo_upstream ''Hello there!''"]
  have f: "findById store0 ''alice'' = Some alice" "findById store0 ''bob'' = Some bob"
      "find (\<lambda>t. tok_id t = ''t1'') (temporaryTokens bob) = Some listing"
      "\<forall>t\<in>set (temporaryTokens alice). \<not> (name t = name listing \<and> sellerId t = ''bob'')"
    by (simp_all add: findById_def scenario_defs)
  have k: "key_name claude_key = ''Work Claude key''" "name listing = ''gpt-4 bundle''"
    by (simp_all add: scenario_defs)
  have h2: "buy_tokens round_double store0 ''alice'' ''bob'' ''t1'' 5 ''n1'' =
       (Inr \<lparr>tokensReceived = 10, amountSpent = 5, remainingBalance = 5,
             purchasedToken = bought 10\<rparr>, store_full) \<and>
        findById store0 ''alice'' = Some alice \<and> findById store0 ''bob'' = Some bob \<and>
        find (\<lambda>t. tok_id t = ''t1'') (temporaryTokens bob) = Some listing \<and>
        (\<forall>t\<in>set (temporaryTokens alice). \<not> (name t = name listing \<and> sellerId t = ''bob''))"
    using whole_purchase_double f by simp
  from main [THEN conjunct2, THEN conjunct1, rule_format, OF h2]
  have created: "tok_id (bought 10) = ''n1''" "name (bought 10) = ''gpt-4 bundle''"
      "apiKeyName (bought 10) = None"
    by (simp_all add: k)
  have h6: "buy_tokens round_double store0 ''alice'' ''bob'' ''t1'' 5 ''n1'' =
       (Inr \<lparr>tokensReceived = 10, amountSpent = 5, remainingBalance = 5,
             purchasedToken = bought 10\<rparr>, store_full) \<and>
        ''n1'' \<notin> set (named_ids store0) \<and>
        chat_resolve (demo_upstream ''Hello there!'')
          (serve_all round_double (demo_upstream ''Hello there!'')
             [Chat ''alice'' ''How are you?'' ''temp'' ''n1'' ''claude-3-haiku-20240307''] store_full)
          ''alice'' ''And you?'' ''temp'' ''n1'' ''gpt-4o'' =
        Inr \<lparr>doc = alice\<lparr>amount := 5, temporaryTokens := [bought 4]\<rparr>, source = TempSource 0,
             provider_of = Anthropic, credential = ''sk-ant''\<rparr>"
    using whole_purchase_double unnamed_store0 resolve_after_debit
    unfolding served_after_purchase by simp
  from main [THEN conjunct2, THEN conjunct2, THEN conjunct2, THEN conjunct2, THEN conjunct2,
      THEN conjunct2, rule_format, OF h6, unfolded served_after_purchase]
  obtain user tempKey seller originalApiKey where
    fu: "findById [alice\<lparr>amount := 5, temporaryTokens := [bought 4]\<rparr>,
                   bob\<lparr>amount := 5, temporaryTokens := []\<rparr>] ''alice'' = Some user" and
    ft: "find (\<lambda>k. tok_id k = ''n1'') (temporaryTokens user) = Some tempKey" and
    fs: "findById [alice\<lparr>amount := 5, temporaryTokens := [bought 4]\<rparr>,
                   bob\<lparr>amount := 5, temporaryTokens := []\<rparr>] (sellerId tempKey) = Some seller" and
    fk: "find (\<lambda>k. key_id k = originalApiKeyId tempKey) (api_keys seller) = Some originalApiKey" and
    pr: "getProviderFromModel (key_name originalApiKey) =
           Inr (provider_of \<lparr>doc = alice\<lparr>amount := 5, temporaryTokens := [bought 4]\<rparr>,
                  source = TempSource 0, provider_of = Anthropic, credential = ''sk-ant''\<rparr>)"
    by blast
  have "user = alice\<lparr>amount := 5, temporaryTokens := [bought 4]\<rparr>"
    using fu by (auto simp: findById_def scenario_defs)
  then have "tempKey = bought 4"
    using ft by (auto simp: scenario_defs)
  then have "seller = bob\<lparr>amount := 5, temporaryTokens := []\<rparr>"
    using fs by (auto simp: findById_def scenario_defs)
  with \<open>tempKey = bought 4\<close> have "originalApiKey = claude_key"
    using fk by (auto simp: scenario_defs)
  with pr have later: "getProviderFromModel ''Work Claude key'' = Inr Anthropic"
    by (simp add: k)
  have served: "\<exists>r2. chat_resolve (demo_upstream ''Hello there!'')
         (serve_all round_double (demo_upstream ''Hello there!'')
            [Chat ''alice'' ''How are you?'' ''temp'' ''n1'' ''claude-3-haiku-20240307''] store_full)
         ''alice'' ''And you?'' ''temp'' ''n1'' ''gpt-4o'' = Inr r2
       \<and> getProviderFromModel ''Work Claude key'' = Inr (provider_of r2)
       \<and> provider_of r2 = Anthropic"
    unfolding served_after_purchase resolve_after_debit using later by simp
  from main [THEN conjunct1, rule_format, OF resolve_named]
  have "getProviderFromModel ''gemini-pro'' = Inr Gemini"
    by (elim exE conjE) (auto simp: findById_def scenario_defs named_store_def)
  then have named: "\<exists>r. chat_resolve (demo_upstream ''Hello there!'') named_store ''alice''
         ''How are you?'' ''temp'' ''n1'' ''claude-3-haiku-20240307'' = Inr r
       \<and> getProviderFromModel ''gemini-pro'' = Inr (provider_of r)
       \<and> provider_of r = Gemini"
    unfolding resolve_named by simp
  from main [THEN conjunct2, THEN conjunct2, THEN conjunct1,
      of store0 "''alice''" "''bob''" "''t1''" 5 "''n1''"]
  have fewer: "set (named_ids store_full) \<subseteq> set (named_ids store0)"
    unfolding whole_purchase_double by simp
  from whole_purchase_double unnamed_store0 created k(1) served_after_purchase served named fewer
  show ?thesis by blast
qed

end
